theory Spec2Isabelle
  imports Main
begin

section \<open>Values shared by the whole package\<close>

text \<open>
  A Go \<open>[]byte\<close> and a Go \<open>string\<close> are both byte sequences; they are modelled as
  \<open>string\<close> (a list of 8-bit characters). Go's \<open>int\<close> is taken to be 64 bits wide,
  as on every 64-bit platform. Counts and configuration values that are only compared are
  \<open>int\<close>; the one \<open>int64\<close> that is added to, \<open>sizeInBytes\<close>, wraps around through
  \<open>wrap_int64\<close>.
\<close>

definition wrap_int64 :: "int \<Rightarrow> int" where
  "wrap_int64 x = (x + 2 ^ 63) mod 2 ^ 64 - 2 ^ 63"

text \<open>
  Go errors. \<open>errors_New\<close> is \<open>errors.New\<close> of the package itself;
  \<open>collaborator_error\<close> stands for any error handed back by the HTTP client or by the
  response decoder.
\<close>

datatype error = errors_New string | collaborator_error string

text \<open>Run-time panics the modelled functions can raise.\<close>

datatype panic = slice_bounds_out_of_range | negative_Grow_count | send_on_closed_channel

text \<open>
  \<open>http.Header\<close> is a map from a key to the values added under it. A nil header and an
  empty one read alike and are both the empty map; the case normalisation of keys done by
  \<open>net/http\<close> is left out.
\<close>

type_synonym http_Header = "string \<rightharpoonup> string list"

definition http_Header_Add :: "http_Header \<Rightarrow> string \<Rightarrow> string \<Rightarrow> http_Header" where
  "http_Header_Add h k v = h(k \<mapsto> (case h k of None \<Rightarrow> [v] | Some vs \<Rightarrow> vs @ [v]))"

record Response =
  res_StatusCode :: int
  res_Body :: string

record BulkResponse =
  TxnID :: int
  Label :: string
  Status :: string
  ExistingJobStatus :: string
  Message :: string
  NumberTotalRows :: int
  NumberLoadedRows :: int
  NumberFilteredRows :: int
  NumberUnselectedRows :: int
  LoadBytes :: int
  LoadTimeMs :: int
  ErrorURL :: string

record PerformRequestOptions =
  opt_Method :: string
  opt_Path :: string
  opt_Body :: string
  opt_Headers :: http_Header

text \<open>
  What the program does that can be seen from outside is kept in a log, oldest event first:
  every call of \<open>Client.PerformRequest\<close> with its options, every flush request put on a
  worker's \<open>flushC\<close>, and every acknowledgement a worker puts on its \<open>flushAckC\<close>
  (workers are named by their index \<open>i\<close>).
\<close>

datatype event = Performed PerformRequestOptions | FlushSignal int | FlushAck int

type_synonym world = "event list"

text \<open>
  The client is the gate to the network. \<open>Client.PerformRequest\<close> builds the request with
  \<open>net/http\<close>, hands it to the \<open>Doer\<close> and reads the answer; all of this is one
  parameter here, which may answer from everything that happened before. The
  \<open>Decoder\<close> interface is the second parameter.
\<close>

record Client =
  PerformRequest :: "world \<Rightarrow> PerformRequestOptions \<Rightarrow> error + Response"
  decoder :: "string \<Rightarrow> error + BulkResponse"


section \<open>BulkService (bulk\_service.go)\<close>

record BulkService =
  s_c :: Client
  s_rows :: "string list"
  s_db :: string
  s_table :: string
  s_headers :: http_Header
  s_sizeInBytes :: int
  s_sizeInBytesCursor :: int

definition Header :: "BulkService \<Rightarrow> string \<Rightarrow> string \<Rightarrow> BulkService" where
  "Header s name value = s\<lparr>s_headers := http_Header_Add (s_headers s) name value\<rparr>"

definition NewBulkService :: "Client \<Rightarrow> BulkService" where
  "NewBulkService c =
     Header \<lparr>s_c = c, s_rows = [], s_db = [], s_table = [], s_headers = Map.empty,
             s_sizeInBytes = 0, s_sizeInBytesCursor = 0\<rparr> ''Expect'' ''100-continue''"

definition DB :: "BulkService \<Rightarrow> string \<Rightarrow> BulkService" where
  "DB s db = s\<lparr>s_db := db\<rparr>"

definition Table :: "BulkService \<Rightarrow> string \<Rightarrow> BulkService" where
  "Table s table = s\<lparr>s_table := table\<rparr>"

definition estimateSizeInBytes :: "string \<Rightarrow> int" where
  "estimateSizeInBytes r = int (length r)"

text \<open>
  The body of the \<open>for ... range\<close> loop of \<open>EstimatedSizeInBytes\<close>, run over the rows
  still to visit. The third argument collects, in order, the rows handed to
  \<open>estimateSizeInBytes\<close>; it is not a value of the program, only a record of what the
  loop visits.
\<close>

fun EstimatedSizeInBytes_loop ::
  "string list \<Rightarrow> BulkService \<Rightarrow> string list \<Rightarrow> BulkService \<times> string list" where
  "EstimatedSizeInBytes_loop [] s visited = (s, visited)"
| "EstimatedSizeInBytes_loop (r # rs) s visited =
     EstimatedSizeInBytes_loop rs
       (s\<lparr>s_sizeInBytes := wrap_int64 (s_sizeInBytes s + estimateSizeInBytes r),
          s_sizeInBytesCursor := s_sizeInBytesCursor s + 1\<rparr>)
       (visited @ [r])"

text \<open>
  \<open>EstimatedSizeInBytes\<close> with the rows it visited. The slice expression
  \<open>s.rows[s.sizeInBytesCursor:]\<close> panics when the cursor is negative or beyond the end.
\<close>

definition EstimatedSizeInBytes_visiting ::
  "BulkService \<Rightarrow> panic + (int \<times> BulkService \<times> string list)" where
  "EstimatedSizeInBytes_visiting s =
     (if s_sizeInBytesCursor s = int (length (s_rows s)) then Inr (s_sizeInBytes s, s, [])
      else if s_sizeInBytesCursor s < 0 \<or> int (length (s_rows s)) < s_sizeInBytesCursor s
        then Inl slice_bounds_out_of_range
      else (case EstimatedSizeInBytes_loop (drop (nat (s_sizeInBytesCursor s)) (s_rows s)) s []
            of (s', visited) \<Rightarrow> Inr (s_sizeInBytes s', s', visited)))"

definition EstimatedSizeInBytes :: "BulkService \<Rightarrow> panic + (int \<times> BulkService)" where
  "EstimatedSizeInBytes s =
     (case EstimatedSizeInBytes_visiting s of
        Inl p \<Rightarrow> Inl p
      | Inr (n, s', visited) \<Rightarrow> Inr (n, s'))"

definition NumberOfRows :: "BulkService \<Rightarrow> int" where
  "NumberOfRows s = int (length (s_rows s))"

text \<open>The \<open>for ... range s.rows\<close> loop of \<open>bodyAsString\<close>, on the builder's contents.\<close>

fun bodyAsString_loop :: "string list \<Rightarrow> string \<Rightarrow> string" where
  "bodyAsString_loop [] buf = buf"
| "bodyAsString_loop (row # rs) buf = bodyAsString_loop rs ((buf @ row) @ [CHR 0x0A])"

text \<open>
  \<open>bodyAsString\<close> first asks for the estimate (which moves the cursor) and grows the
  builder by it; \<open>strings.Builder.Grow\<close> panics on a negative count. The error it returns
  is always nil and is left out.
\<close>

definition bodyAsString :: "BulkService \<Rightarrow> panic + (string \<times> BulkService)" where
  "bodyAsString s =
     (case EstimatedSizeInBytes s of
        Inl p \<Rightarrow> Inl p
      | Inr (n, s') \<Rightarrow>
          if n < 0 then Inl negative_Grow_count
          else Inr (bodyAsString_loop (s_rows s') [], s'))"

definition buildUrlPath :: "BulkService \<Rightarrow> string" where
  "buildUrlPath s = ((''/api/'' @ s_db s) @ ''/'') @ s_table s @ ''/_stream_load''"

definition Reset :: "BulkService \<Rightarrow> BulkService" where
  "Reset s = s\<lparr>s_rows := [], s_sizeInBytes := 0, s_sizeInBytesCursor := 0\<rparr>"

definition Add :: "BulkService \<Rightarrow> string list \<Rightarrow> BulkService" where
  "Add s rows = s\<lparr>s_rows := s_rows s @ rows\<rparr>"

text \<open>
  \<open>Do\<close> returns the Go pair (response, error) as a sum, the service as it leaves it, and
  the log. \<open>Reset\<close> is reached only on the path where both the request and the decoding
  succeeded.
\<close>

definition Do ::
  "BulkService \<Rightarrow> world \<Rightarrow> panic + ((error + BulkResponse) \<times> BulkService \<times> world)" where
  "Do s w =
     (if NumberOfRows s = 0 then Inr (Inl (errors_New ''No bulk rows to commit''), s, w)
      else
        (case bodyAsString s of
           Inl p \<Rightarrow> Inl p
         | Inr (body, s1) \<Rightarrow>
             (let path = buildUrlPath s1;
                  opt = \<lparr>opt_Method = ''PUT'', opt_Path = path, opt_Body = body,
                         opt_Headers = s_headers s1\<rparr>;
                  w1 = w @ [Performed opt]
              in case PerformRequest (s_c s1) w opt of
                   Inl err \<Rightarrow> Inr (Inl err, s1, w1)
                 | Inr res \<Rightarrow>
                     (case decoder (s_c s1) (res_Body res) of
                        Inl err \<Rightarrow> Inr (Inl err, s1, w1)
                      | Inr ret \<Rightarrow> Inr (Inr ret, Reset s1, w1)))))"


section \<open>Reachable services\<close>

definition total_bytes :: "string list \<Rightarrow> int" where
  "total_bytes rs = sum_list (map estimateSizeInBytes rs)"

text \<open>
  What every service built from \<open>NewBulkService\<close> by \<open>Add\<close>, \<open>EstimatedSizeInBytes\<close>,
  \<open>Do\<close> and \<open>Reset\<close> satisfies, as long as the bytes of one batch stay below \<open>2^63\<close>:
  the cursor is inside the batch and \<open>sizeInBytes\<close> is the size of the rows before it.
\<close>

definition service_ok :: "BulkService \<Rightarrow> bool" where
  "service_ok s =
     (0 \<le> s_sizeInBytesCursor s \<and> s_sizeInBytesCursor s \<le> int (length (s_rows s)) \<and>
      s_sizeInBytes s = total_bytes (take (nat (s_sizeInBytesCursor s)) (s_rows s)) \<and>
      total_bytes (s_rows s) < 2 ^ 63)"


section \<open>Retry policy\<close>

text \<open>
  Modelled from the spec: the \<open>Backoff\<close> interface and \<open>RetryNotify\<close> are called by
  \<open>bulkWorker.commit\<close> but their file is not among the sources. A backoff schedule is
  asked after the \<open>n\<close>-th failed attempt: \<open>Some wait\<close> grants another attempt after the
  wait, \<open>None\<close> signals exhaustion. The wait itself (real time) has no effect here.
\<close>

type_synonym Backoff = "nat \<Rightarrow> int option"

text \<open>
  Modelled from the spec: \<open>RetryNotify operation b notify\<close> invokes the operation
  repeatedly; on an error it invokes the notification hook, then waits as the schedule says
  and retries; it stops when the schedule signals exhaustion and returns the last error, and
  returns success at once on the first result without error. The operation works on a
  state \<open>'s\<close>; \<open>n\<close> counts the failed attempts so far. With a schedule that never
  ends and an operation that never succeeds the loop does not return: the value is
  \<open>None\<close>. A panic of the operation ends the loop.
\<close>

partial_function (option) RetryNotify ::
  "('s \<Rightarrow> panic + (error option \<times> 's)) \<Rightarrow> Backoff \<Rightarrow> (error \<Rightarrow> 's \<Rightarrow> 's) \<Rightarrow> nat \<Rightarrow> 's
     \<Rightarrow> (panic + (error option \<times> 's)) option" where
  "RetryNotify operation b notify n s =
     (case operation s of
        Inl p \<Rightarrow> Some (Inl p)
      | Inr (None, s') \<Rightarrow> Some (Inr (None, s'))
      | Inr (Some err, s') \<Rightarrow>
          (case b (Suc n) of
             None \<Rightarrow> Some (Inr (Some err, notify err s'))
           | Some wait \<Rightarrow> RetryNotify operation b notify (Suc n) (notify err s')))"


section \<open>bulkWorker\<close>

text \<open>
  The worker reaches its processor only for the intake channel, the wait group and the
  backoff schedule; the schedule, fixed when the processor is built, is kept in the worker as
  \<open>w_p_backoff\<close>. \<open>w_closed\<close> says that \<open>flushC\<close> and \<open>flushAckC\<close> have been closed
  by the deferred function of \<open>work\<close>.
\<close>

record bulkWorker =
  w_i :: int
  w_bulkActions :: int
  w_bulkSize :: int
  w_service :: BulkService
  w_p_backoff :: Backoff
  w_closed :: bool

text \<open>Sequencing of steps that may panic (\<open>Inl\<close>) or never return (\<open>None\<close>).\<close>

definition and_then :: "(panic + 'a) option \<Rightarrow> ('a \<Rightarrow> (panic + 'b) option) \<Rightarrow> (panic + 'b) option" where
  "and_then m f = (case m of None \<Rightarrow> None | Some (Inl p) \<Rightarrow> Some (Inl p) | Some (Inr x) \<Rightarrow> f x)"

definition then_return :: "(panic + 'a) option \<Rightarrow> ('a \<Rightarrow> 'b) \<Rightarrow> (panic + 'b) option" where
  "then_return m f = and_then m (\<lambda>x. Some (Inr (f x)))"

text \<open>The closure \<open>commitFunc\<close> of \<open>commit\<close>: one call of \<open>service.Do\<close>.\<close>

definition commitFunc :: "bulkWorker \<times> world \<Rightarrow> panic + (error option \<times> (bulkWorker \<times> world))" where
  "commitFunc st =
     (case st of (wk, w) \<Rightarrow>
        (case Do (w_service wk) w of
           Inl p \<Rightarrow> Inl p
         | Inr (Inl err, s', w') \<Rightarrow> Inr (Some err, (wk\<lparr>w_service := s'\<rparr>, w'))
         | Inr (Inr res, s', w') \<Rightarrow> Inr (None, (wk\<lparr>w_service := s'\<rparr>, w'))))"

text \<open>The closure \<open>notifyFunc\<close> of \<open>commit\<close> has an empty body.\<close>

definition notifyFunc :: "error \<Rightarrow> bulkWorker \<times> world \<Rightarrow> bulkWorker \<times> world" where
  "notifyFunc err st = st"

definition commit :: "bulkWorker \<Rightarrow> world \<Rightarrow> (panic + (error option \<times> bulkWorker \<times> world)) option" where
  "commit wk w = RetryNotify commitFunc (w_p_backoff wk) notifyFunc 0 (wk, w)"

text \<open>
  \<open>commitRequired\<close>; the second test calls \<open>EstimatedSizeInBytes\<close>, which moves the
  cursor of the service, only when the first test did not already answer.
\<close>

definition commitRequired :: "bulkWorker \<Rightarrow> panic + (bool \<times> bulkWorker)" where
  "commitRequired wk =
     (if 0 \<le> w_bulkActions wk \<and> w_bulkActions wk \<le> NumberOfRows (w_service wk)
        then Inr (True, wk)
      else if 0 \<le> w_bulkSize wk
        then (case EstimatedSizeInBytes (w_service wk) of
                Inl p \<Rightarrow> Inl p
              | Inr (n, s') \<Rightarrow> Inr (w_bulkSize wk \<le> n, wk\<lparr>w_service := s'\<rparr>))
      else Inr (False, wk))"

text \<open>
  What the \<open>select\<close> of \<open>work\<close> can receive: a record from the intake channel, the
  closing of the intake channel, or a flush request.
\<close>

datatype select_case = Row string | RowsClosed | FlushC

text \<open>
  One iteration of the loop of \<open>work\<close>. The result holds \<open>stop\<close>, the local \<open>err\<close> as
  it stands at the end of the iteration, the worker and the log.
\<close>

fun work_select ::
  "bulkWorker \<Rightarrow> world \<Rightarrow> select_case \<Rightarrow> (panic + (bool \<times> error option \<times> bulkWorker \<times> world)) option" where
  "work_select wk w (Row row) =
     (case commitRequired (wk\<lparr>w_service := Add (w_service wk) [row]\<rparr>) of
        Inl p \<Rightarrow> Some (Inl p)
      | Inr (required, wk1) \<Rightarrow>
          if required
          then then_return (commit wk1 w) (\<lambda>(err, wk2, w2). (False, err, wk2, w2))
          else Some (Inr (False, None, wk1, w)))"
| "work_select wk w RowsClosed =
     (if 0 < NumberOfRows (w_service wk)
      then then_return (commit wk w) (\<lambda>(err, wk2, w2). (True, err, wk2, w2))
      else Some (Inr (True, None, wk, w)))"
| "work_select wk w FlushC =
     (if 0 < NumberOfRows (w_service wk)
      then then_return (commit wk w) (\<lambda>(err, wk2, w2). (False, err, wk2, w2 @ [FlushAck (w_i wk)]))
      else Some (Inr (False, None, wk, w @ [FlushAck (w_i wk)])))"

text \<open>
  The loop \<open>for !stop\<close> over the events the worker receives, in the order it receives
  them. The code does nothing with \<open>err\<close> at the end of an iteration. With no event left
  and \<open>stop\<close> still false the worker is waiting in its \<open>select\<close>.
\<close>

fun work_loop ::
  "bulkWorker \<Rightarrow> world \<Rightarrow> select_case list \<Rightarrow> (panic + (bool \<times> bulkWorker \<times> world)) option" where
  "work_loop wk w [] = Some (Inr (False, wk, w))"
| "work_loop wk w (ev # evs) =
     and_then (work_select wk w ev)
       (\<lambda>(stop, err, wk', w'). if stop then Some (Inr (True, wk', w')) else work_loop wk' w' evs)"

text \<open>
  \<open>work\<close>: the loop and, once it has ended, the deferred function, which closes the two
  flush channels (its \<open>workerWg.Done()\<close> belongs to the processor and is not kept).
\<close>

definition work :: "bulkWorker \<Rightarrow> world \<Rightarrow> select_case list \<Rightarrow> (panic + (bulkWorker \<times> world)) option" where
  "work wk w evs =
     then_return (work_loop wk w evs)
       (\<lambda>(stop, wk', w'). if stop then (wk'\<lparr>w_closed := True\<rparr>, w') else (wk', w'))"


section \<open>BulkProcessor (bulk\_processor.go)\<close>

text \<open>A channel value is nil, open or closed.\<close>

datatype chan = chan_nil | chan_open | chan_closed

record BulkProcessor =
  p_c :: Client
  p_name :: string
  p_db :: string
  p_table :: string
  p_bulkActions :: int
  p_bulkSize :: int
  p_flushInterval :: int
  p_flusherStopC :: chan
  p_retryItemStatusCodes :: "int set"
  p_numWorkers :: int
  p_executionId :: int
  p_rows :: chan
  p_workerWg :: int
  p_workers :: "bulkWorker list"
  p_backoff :: Backoff
  p_started :: bool
  p_stopReconnC :: chan

definition NewBulkProcessor ::
  "Client \<Rightarrow> string \<Rightarrow> string \<Rightarrow> string \<Rightarrow> int \<Rightarrow> int \<Rightarrow> int \<Rightarrow> int \<Rightarrow> Backoff \<Rightarrow> int set
     \<Rightarrow> BulkProcessor" where
  "NewBulkProcessor client name db table numWorkers bulkActions bulkSize flushInterval backoff
       retryItemStatusCodes =
     \<lparr>p_c = client, p_name = name, p_db = db, p_table = table, p_bulkActions = bulkActions,
      p_bulkSize = bulkSize, p_flushInterval = flushInterval, p_flusherStopC = chan_nil,
      p_retryItemStatusCodes = retryItemStatusCodes, p_numWorkers = numWorkers,
      p_executionId = 0, p_rows = chan_nil, p_workerWg = 0, p_workers = [],
      p_backoff = backoff, p_started = False, p_stopReconnC = chan_nil\<rparr>"

definition newBulkWorker :: "BulkProcessor \<Rightarrow> int \<Rightarrow> bulkWorker" where
  "newBulkWorker p i =
     \<lparr>w_i = i, w_bulkActions = p_bulkActions p, w_bulkSize = p_bulkSize p,
      w_service = Table (DB (NewBulkService (p_c p)) (p_db p)) (p_table p),
      w_p_backoff = p_backoff p, w_closed = False\<rparr>"

definition checkInterval :: "BulkProcessor \<Rightarrow> error option" where
  "checkInterval p =
     (if p_bulkActions p = 0 \<and> p_bulkSize p = 0 \<and> p_flushInterval p = 0
      then Some (errors_New ''bulk actions and bulk size and flush interval all is nil(0)'')
      else None)"

text \<open>
  The loop of \<open>Start\<close> that creates the workers, from index \<open>i\<close> on. The slice made
  before the loop and filled by index is built here by appending, from the empty list.
  Each worker starts its \<open>work\<close> with open flush channels.
\<close>

function Start_loop :: "BulkProcessor \<Rightarrow> int \<Rightarrow> BulkProcessor" where
  "Start_loop p i =
     (if i < p_numWorkers p
      then Start_loop (p\<lparr>p_workerWg := p_workerWg p + 1,
                         p_workers := p_workers p @ [newBulkWorker p i]\<rparr>) (i + 1)
      else p)"
  by pat_completeness auto
termination
  by (relation "measure (\<lambda>(p, i). nat (p_numWorkers p - i))") auto

declare Start_loop.simps [simp del]

text \<open>
  \<open>Start\<close> under its lock. A flusher is started, and its stop channel made, when the
  interval is positive.
\<close>

definition Start :: "BulkProcessor \<Rightarrow> error option \<times> BulkProcessor" where
  "Start p =
     (case checkInterval p of
        Some err \<Rightarrow> (Some err, p)
      | None \<Rightarrow>
          if p_started p then (None, p)
          else
            (let p1 = (if p_numWorkers p < 1 then p\<lparr>p_numWorkers := 1\<rparr> else p);
                 p2 = p1\<lparr>p_rows := chan_open, p_executionId := 0, p_stopReconnC := chan_open\<rparr>;
                 p3 = Start_loop (p2\<lparr>p_workers := []\<rparr>) 0;
                 p4 = (if 0 < p_flushInterval p3 then p3\<lparr>p_flusherStopC := chan_open\<rparr> else p3)
             in (None, p4\<lparr>p_started := True\<rparr>)))"

text \<open>
  The loop of \<open>Flush\<close> over the workers of the pool, each waiting in its \<open>select\<close>.
  The send on \<open>flushC\<close> is received by the worker, which runs the flush case of its loop
  and sends on \<open>flushAckC\<close>; \<open>Flush\<close> receives that before it goes on. A send on the
  \<open>flushC\<close> of a worker that has ended panics.
\<close>

fun Flush_loop :: "bulkWorker list \<Rightarrow> world \<Rightarrow> (panic + (bulkWorker list \<times> world)) option" where
  "Flush_loop [] w = Some (Inr ([], w))"
| "Flush_loop (wk # wks) w =
     (if w_closed wk then Some (Inl send_on_closed_channel)
      else and_then (work_select wk (w @ [FlushSignal (w_i wk)]) FlushC)
             (\<lambda>(stop, err, wk', w').
                then_return (Flush_loop wks w') (\<lambda>(wks', w''). (wk' # wks', w''))))"

text \<open>\<open>Flush\<close> ends with \<open>return nil\<close>.\<close>

definition Flush :: "BulkProcessor \<Rightarrow> world \<Rightarrow> (panic + (error option \<times> BulkProcessor \<times> world)) option" where
  "Flush p w =
     then_return (Flush_loop (p_workers p) w) (\<lambda>(wks, w'). (None, p\<lparr>p_workers := wks\<rparr>, w'))"


section \<open>Reading the log\<close>

fun performed :: "world \<Rightarrow> PerformRequestOptions list" where
  "performed [] = []"
| "performed (Performed opt # w) = opt # performed w"
| "performed (FlushSignal i # w) = performed w"
| "performed (FlushAck i # w) = performed w"

fun handshakes :: "world \<Rightarrow> event list" where
  "handshakes [] = []"
| "handshakes (Performed opt # w) = handshakes w"
| "handshakes (FlushSignal i # w) = FlushSignal i # handshakes w"
| "handshakes (FlushAck i # w) = FlushAck i # handshakes w"

text \<open>
  The wire payload in the words of the specification: the records in insertion order, each
  followed by one newline byte.
\<close>

definition payload_lines :: "string list \<Rightarrow> string" where
  "payload_lines rs = concat (map (\<lambda>r. r @ [CHR 0x0A]) rs)"

text \<open>
  The service once \<open>EstimatedSizeInBytes\<close> has gone through all its rows, and the options
  \<open>Do\<close> hands to \<open>PerformRequest\<close>.
\<close>

definition estimated :: "BulkService \<Rightarrow> BulkService" where
  "estimated s = s\<lparr>s_sizeInBytes := total_bytes (s_rows s),
                   s_sizeInBytesCursor := int (length (s_rows s))\<rparr>"

definition bulk_request :: "BulkService \<Rightarrow> PerformRequestOptions" where
  "bulk_request s = \<lparr>opt_Method = ''PUT'', opt_Path = buildUrlPath s,
                     opt_Body = payload_lines (s_rows s), opt_Headers = s_headers s\<rparr>"


section \<open>Sample collaborators\<close>

text \<open>A store that accepts every request, and one that cannot be reached.\<close>

definition loaded :: BulkResponse where
  "loaded = \<lparr>TxnID = 1, Label = ''l'', Status = ''Success'', ExistingJobStatus = [],
             Message = ''OK'', NumberTotalRows = 0, NumberLoadedRows = 0,
             NumberFilteredRows = 0, NumberUnselectedRows = 0, LoadBytes = 0, LoadTimeMs = 0,
             ErrorURL = []\<rparr>"

definition accepting :: Client where
  "accepting = \<lparr>PerformRequest = (\<lambda>w opt. Inr \<lparr>res_StatusCode = 200, res_Body = ''{}''\<rparr>),
                decoder = (\<lambda>body. Inr loaded)\<rparr>"

definition unreachable :: Client where
  "unreachable = \<lparr>PerformRequest = (\<lambda>w opt. Inl (collaborator_error ''connection refused'')),
                  decoder = (\<lambda>body. Inr loaded)\<rparr>"


text \<open>A schedule that grants no retry, and a worker holding one row whose store is out of reach.\<close>

definition no_retry :: Backoff where
  "no_retry n = None"

definition stranded :: bulkWorker where
  "stranded =
     (newBulkWorker (NewBulkProcessor unreachable ''p'' ''db'' ''t'' 1 10 (- 1) 0 no_retry {}) 0)
       \<lparr>w_service := Add (Table (DB (NewBulkService unreachable) ''db'') ''t'') [''a'']\<rparr>"


text \<open>A processor with two workers that commits every three records.\<close>

definition pool :: BulkProcessor where
  "pool = NewBulkProcessor accepting ''p'' ''db'' ''t'' 2 3 (- 1) 0 no_retry {}"


text \<open>
  The records a worker received, cut into the batches its count threshold \<open>k\<close> makes:
  batch \<open>j\<close> holds the records \<open>j * k\<close> to \<open>j * k + k - 1\<close>, and the residue is what
  remains after the last full batch. \<open>batch_request s b\<close> is the request \<open>Do\<close> makes on
  the service \<open>s\<close> when its batch holds the rows \<open>b\<close>.
\<close>

definition full_batches :: "nat \<Rightarrow> 'a list \<Rightarrow> 'a list list" where
  "full_batches k rs = map (\<lambda>j. take k (drop (j * k) rs)) [0..<length rs div k]"

definition residue :: "nat \<Rightarrow> 'a list \<Rightarrow> 'a list" where
  "residue k rs = drop (k * (length rs div k)) rs"

definition batch_request :: "BulkService \<Rightarrow> string list \<Rightarrow> PerformRequestOptions" where
  "batch_request s b = \<lparr>opt_Method = ''PUT'', opt_Path = buildUrlPath s,
                        opt_Body = payload_lines b, opt_Headers = s_headers s\<rparr>"


text \<open>
  A worker that can take a flush request: it waits in its \<open>select\<close> with open flush
  channels, its service is as the operations leave it, and its backoff schedule ends.
  \<open>flush_round wk k\<close> is what the log shows of one request served by \<open>wk\<close>: the
  signal, the \<open>k\<close> attempts of its commit, the acknowledgement.
\<close>

definition flushable :: "bulkWorker \<Rightarrow> bool" where
  "flushable wk =
     (\<not> w_closed wk \<and> service_ok (w_service wk) \<and> (\<exists>m. w_p_backoff wk (Suc m) = None))"

definition flush_round :: "bulkWorker \<Rightarrow> nat \<Rightarrow> event list" where
  "flush_round wk k =
     FlushSignal (w_i wk) # replicate k (Performed (bulk_request (w_service wk))) @
     [FlushAck (w_i wk)]"

text \<open>
  Two started processors whose store is out of reach: one whose only worker holds a row, and
  one with two workers, the second of which holds a row.
\<close>

definition outage :: BulkProcessor where
  "outage =
     (NewBulkProcessor unreachable ''p'' ''db'' ''t'' 1 10 (- 1) 0 no_retry {})
       \<lparr>p_rows := chan_open, p_stopReconnC := chan_open, p_workerWg := 1,
        p_workers := [stranded], p_started := True\<rparr>"

definition cut_off :: BulkProcessor where
  "cut_off = NewBulkProcessor unreachable ''p'' ''db'' ''t'' 2 3 (- 1) 0 no_retry {}"

definition flushing :: BulkProcessor where
  "flushing =
     (snd (Start cut_off))
       \<lparr>p_workers := [newBulkWorker cut_off 0,
                      (newBulkWorker cut_off 1)
                        \<lparr>w_service := Add (w_service (newBulkWorker cut_off 1)) [''a'']\<rparr>]\<rparr>"


section \<open>The size estimate and the payload\<close>

lemma wrap_int64_id: "- (2 ^ 63) \<le> x \<Longrightarrow> x < 2 ^ 63 \<Longrightarrow> wrap_int64 x = x"
  by (simp add: wrap_int64_def)

lemma total_bytes_nonneg: "0 \<le> total_bytes rs"
  by (induction rs) (simp_all add: total_bytes_def estimateSizeInBytes_def)

lemma total_bytes_append: "total_bytes (xs @ ys) = total_bytes xs + total_bytes ys"
  by (simp add: total_bytes_def)

lemma total_bytes_Cons: "total_bytes (r # rs) = int (length r) + total_bytes rs"
  by (simp add: total_bytes_def estimateSizeInBytes_def)

lemma total_bytes_sum: "total_bytes rs = (\<Sum>r\<leftarrow>rs. int (length r))"
  by (induction rs) (simp_all add: total_bytes_def estimateSizeInBytes_def)

lemma EstimatedSizeInBytes_loop_eq:
  "0 \<le> s_sizeInBytes s \<Longrightarrow> s_sizeInBytes s + total_bytes rs < 2 ^ 63 \<Longrightarrow>
   EstimatedSizeInBytes_loop rs s visited =
     (s\<lparr>s_sizeInBytes := s_sizeInBytes s + total_bytes rs,
        s_sizeInBytesCursor := s_sizeInBytesCursor s + int (length rs)\<rparr>, visited @ rs)"
proof (induction rs arbitrary: s visited)
  case Nil
  then show ?case by (simp add: total_bytes_def)
next
  case (Cons r rs)
  have nn: "0 \<le> total_bytes rs" by (rule total_bytes_nonneg)
  have w: "wrap_int64 (s_sizeInBytes s + estimateSizeInBytes r) = s_sizeInBytes s + int (length r)"
    unfolding estimateSizeInBytes_def
    by (rule wrap_int64_id) (use Cons.prems nn in \<open>simp_all add: total_bytes_Cons\<close>)
  show ?case using Cons.prems nn
    by (simp add: w Cons.IH total_bytes_Cons add.assoc)
qed

lemma bodyAsString_loop_eq: "bodyAsString_loop rs buf = buf @ payload_lines rs"
  by (induction rs arbitrary: buf) (simp_all add: payload_lines_def)

lemma EstimatedSizeInBytes_visiting_ok:
  assumes "service_ok s"
  shows "EstimatedSizeInBytes_visiting s =
           Inr (total_bytes (s_rows s), estimated s, drop (nat (s_sizeInBytesCursor s)) (s_rows s))"
proof (cases "s_sizeInBytesCursor s = int (length (s_rows s))")
  case True
  with assms show ?thesis
    by (simp add: EstimatedSizeInBytes_visiting_def service_ok_def estimated_def)
next
  case False
  let ?k = "nat (s_sizeInBytesCursor s)"
  from assms have c: "0 \<le> s_sizeInBytesCursor s" "s_sizeInBytesCursor s \<le> int (length (s_rows s))"
    and sz: "s_sizeInBytes s = total_bytes (take ?k (s_rows s))"
    and bd: "total_bytes (s_rows s) < 2 ^ 63"
    by (simp_all add: service_ok_def)
  have split: "total_bytes (s_rows s) = total_bytes (take ?k (s_rows s)) + total_bytes (drop ?k (s_rows s))"
    by (simp add: total_bytes_append [symmetric])
  have nn: "0 \<le> s_sizeInBytes s"
    by (simp add: sz total_bytes_nonneg)
  have lt: "s_sizeInBytes s + total_bytes (drop ?k (s_rows s)) < 2 ^ 63"
    using bd split sz by simp
  have len: "s_sizeInBytesCursor s + int (length (drop ?k (s_rows s))) = int (length (s_rows s))"
    using c by simp
  have tot: "s_sizeInBytes s + total_bytes (drop ?k (s_rows s)) = total_bytes (s_rows s)"
    using split sz by simp
  show ?thesis
    using False c
    by (simp add: EstimatedSizeInBytes_visiting_def EstimatedSizeInBytes_loop_eq [OF nn lt]
        len tot estimated_def del: length_drop)
qed

lemma EstimatedSizeInBytes_ok:
  "service_ok s \<Longrightarrow> EstimatedSizeInBytes s = Inr (total_bytes (s_rows s), estimated s)"
  by (simp add: EstimatedSizeInBytes_def EstimatedSizeInBytes_visiting_ok)

lemma bodyAsString_ok:
  "service_ok s \<Longrightarrow> bodyAsString s = Inr (payload_lines (s_rows s), estimated s)"
  using total_bytes_nonneg [of "s_rows s"]
  by (simp add: bodyAsString_def EstimatedSizeInBytes_ok bodyAsString_loop_eq estimated_def)

text \<open>The invariant holds at the start and is kept by every operation of the service.\<close>

lemma service_ok_NewBulkService: "service_ok (NewBulkService c)"
  by (simp add: service_ok_def NewBulkService_def Header_def total_bytes_def)

lemma service_ok_estimated: "service_ok s \<Longrightarrow> service_ok (estimated s)"
  by (simp add: service_ok_def estimated_def)

lemma service_ok_Reset: "service_ok (Reset s)"
  by (simp add: service_ok_def Reset_def total_bytes_def)

lemma service_ok_Add:
  assumes "service_ok s" and "total_bytes (s_rows s @ new) < 2 ^ 63"
  shows "service_ok (Add s new)"
proof -
  from assms(1) have "nat (s_sizeInBytesCursor s) \<le> length (s_rows s)"
    unfolding service_ok_def by linarith
  with assms show ?thesis
    by (simp add: service_ok_def Add_def)
qed

lemma Do_ok:
  assumes "service_ok s" and "s_rows s \<noteq> []"
  shows "Do s w =
    Inr (case PerformRequest (s_c s) w (bulk_request s) of
           Inl err \<Rightarrow> (Inl err, estimated s, w @ [Performed (bulk_request s)])
         | Inr res \<Rightarrow>
             (case decoder (s_c s) (res_Body res) of
                Inl err \<Rightarrow> (Inl err, estimated s, w @ [Performed (bulk_request s)])
              | Inr ret \<Rightarrow> (Inr ret, Reset s, w @ [Performed (bulk_request s)])))"
proof -
  have r: "Reset (estimated s) = Reset s"
    by (simp add: Reset_def estimated_def)
  have b: "\<lparr>opt_Method = ''PUT'', opt_Path = buildUrlPath (estimated s),
            opt_Body = payload_lines (s_rows s), opt_Headers = s_headers (estimated s)\<rparr>
           = bulk_request s"
    by (simp add: bulk_request_def buildUrlPath_def estimated_def)
  have c: "s_c (estimated s) = s_c s"
    by (simp add: estimated_def)
  show ?thesis
    using assms(2)
    by (simp add: Do_def NumberOfRows_def bodyAsString_ok [OF assms(1)] Let_def b c r
        split: sum.splits)
qed

text \<open>
  C6. On a service as the operations leave it, \<open>EstimatedSizeInBytes\<close> returns the sum of
  the byte lengths of all rows of the batch, and the loop visits only the rows from the
  cursor on. When rows are appended after one computation, the next computation returns the
  sum over old and new rows and visits the new rows only.
\<close>

theorem EstimatedSizeInBytes_sum_incremental:
  assumes "service_ok s" and "total_bytes (s_rows s @ new) < 2 ^ 63"
  shows "EstimatedSizeInBytes s = Inr ((\<Sum>r\<leftarrow>s_rows s. int (length r)), estimated s) \<and>
         EstimatedSizeInBytes_visiting s =
           Inr ((\<Sum>r\<leftarrow>s_rows s. int (length r)), estimated s,
                drop (nat (s_sizeInBytesCursor s)) (s_rows s)) \<and>
         EstimatedSizeInBytes_visiting (Add (estimated s) new) =
           Inr ((\<Sum>r\<leftarrow>s_rows s @ new. int (length r)), estimated (Add s new), new)"
proof -
  have ok2: "service_ok (Add (estimated s) new)"
    using assms by (intro service_ok_Add service_ok_estimated) (simp_all add: estimated_def)
  have e: "estimated (Add (estimated s) new) = estimated (Add s new)"
    by (simp add: estimated_def Add_def)
  have second: "EstimatedSizeInBytes_visiting (Add (estimated s) new) =
      Inr (total_bytes (s_rows s @ new), estimated (Add s new), new)"
    using EstimatedSizeInBytes_visiting_ok [OF ok2]
    by (simp add: e) (simp add: Add_def estimated_def)
  show ?thesis
    using EstimatedSizeInBytes_ok [OF assms(1)] EstimatedSizeInBytes_visiting_ok [OF assms(1)]
      second
    by (simp only: total_bytes_sum)
qed

theorem EstimatedSizeInBytes_sum_incremental_witness:
  "service_ok (Add (NewBulkService accepting) [''ab'', ''c'']) \<and>
   EstimatedSizeInBytes (Add (NewBulkService accepting) [''ab'', ''c'']) =
     Inr (3, estimated (Add (NewBulkService accepting) [''ab'', ''c''])) \<and>
   EstimatedSizeInBytes_visiting
       (Add (estimated (Add (NewBulkService accepting) [''ab'', ''c''])) [''def'']) =
     Inr (6, estimated (Add (Add (NewBulkService accepting) [''ab'', ''c'']) [''def'']), [''def''])"
proof -
  let ?s = "Add (NewBulkService accepting) [''ab'', ''c'']"
  have h1: "service_ok ?s"
    by (simp add: service_ok_def Add_def NewBulkService_def Header_def total_bytes_def
        estimateSizeInBytes_def)
  have h2: "total_bytes (s_rows ?s @ [''def'']) < 2 ^ 63"
    by (simp add: Add_def NewBulkService_def Header_def total_bytes_def estimateSizeInBytes_def)
  have r: "s_rows ?s = [''ab'', ''c'']"
    by (simp add: Add_def NewBulkService_def Header_def)
  show ?thesis
    using h1 EstimatedSizeInBytes_sum_incremental [OF h1 h2] by (simp add: r)
qed

text \<open>
  C8. The payload \<open>bodyAsString\<close> builds is the rows of the batch in insertion order,
  each followed by exactly one newline byte.
\<close>

theorem bodyAsString_payload_lines:
  assumes "service_ok s"
  shows "bodyAsString s = Inr (concat (map (\<lambda>r. r @ [CHR 0x0A]) (s_rows s)), estimated s)"
  using bodyAsString_ok [OF assms] by (simp add: payload_lines_def)

theorem bodyAsString_payload_lines_witness:
  "service_ok (Add (NewBulkService accepting) [''ab'', ''c'']) \<and>
   bodyAsString (Add (NewBulkService accepting) [''ab'', ''c'']) =
     Inr ([CHR ''a'', CHR ''b'', CHR 0x0A, CHR ''c'', CHR 0x0A],
          estimated (Add (NewBulkService accepting) [''ab'', ''c'']))"
proof -
  let ?s = "Add (NewBulkService accepting) [''ab'', ''c'']"
  have h1: "service_ok ?s"
    by (simp add: service_ok_def Add_def NewBulkService_def Header_def total_bytes_def
        estimateSizeInBytes_def)
  have r: "s_rows ?s = [''ab'', ''c'']"
    by (simp add: Add_def NewBulkService_def Header_def)
  show ?thesis
    using h1 bodyAsString_payload_lines [OF h1] by (simp add: r)
qed

text \<open>
  C10. \<open>Do\<close> on a service with no rows returns the error "No bulk rows to commit", calls
  \<open>PerformRequest\<close> not at all (the log is as before), and leaves the whole service, with
  its rows, size estimate and headers, as it was.
\<close>

theorem Do_empty_batch:
  assumes "NumberOfRows s = 0"
  shows "Do s w = Inr (Inl (errors_New ''No bulk rows to commit''), s, w)"
  using assms by (simp add: Do_def)

theorem Do_empty_batch_witness:
  "NumberOfRows (NewBulkService accepting) = 0 \<and>
   Do (NewBulkService accepting) [] =
     Inr (Inl (errors_New ''No bulk rows to commit''), NewBulkService accepting, [])"
proof -
  have h: "NumberOfRows (NewBulkService accepting) = 0"
    by (simp add: NumberOfRows_def NewBulkService_def Header_def)
  show ?thesis
    using h Do_empty_batch [OF h, of "[]"] by simp
qed

section \<open>Commits\<close>

lemma estimated_idem: "estimated (estimated s) = estimated s"
  by (simp add: estimated_def)

lemma Reset_estimated: "Reset (estimated s) = Reset s"
  by (simp add: Reset_def estimated_def)

lemma bulk_request_estimated: "bulk_request (estimated s) = bulk_request s"
  by (simp add: bulk_request_def buildUrlPath_def estimated_def)

lemma s_rows_estimated: "s_rows (estimated s) = s_rows s"
  by (simp add: estimated_def)

text \<open>One attempt: what \<open>commitFunc\<close> leaves behind.\<close>

lemma commitFunc_ok:
  assumes "service_ok (w_service wk)"
  shows "\<exists>r s' k. commitFunc (wk, w) =
            Inr (r, wk\<lparr>w_service := s'\<rparr>,
                 w @ replicate k (Performed (bulk_request (w_service wk)))) \<and>
          (r = None \<longrightarrow> s' = Reset (w_service wk) \<and> k = 1 \<and> s_rows (w_service wk) \<noteq> []) \<and>
          (r \<noteq> None \<longrightarrow> (s' = w_service wk \<and> k = 0 \<and> s_rows (w_service wk) = []) \<or>
                         (s' = estimated (w_service wk) \<and> k = 1 \<and> s_rows (w_service wk) \<noteq> []))"
proof (cases "s_rows (w_service wk) = []")
  case True
  then have "commitFunc (wk, w) = Inr (Some (errors_New ''No bulk rows to commit''), wk, w)"
    by (simp add: commitFunc_def Do_def NumberOfRows_def)
  then show ?thesis
    using True by (intro exI [of _ "Some (errors_New ''No bulk rows to commit'')"]
        exI [of _ "w_service wk"] exI [of _ 0]) simp
next
  case False
  note d = Do_ok [OF assms False, of w]
  show ?thesis
  proof (cases "PerformRequest (s_c (w_service wk)) w (bulk_request (w_service wk))")
    case (Inl err)
    then show ?thesis
      using False d
      by (intro exI [of _ "Some err"] exI [of _ "estimated (w_service wk)"] exI [of _ 1])
        (simp add: commitFunc_def)
  next
    case (Inr res)
    show ?thesis
    proof (cases "decoder (s_c (w_service wk)) (res_Body res)")
      case (Inl err)
      then show ?thesis
        using False d Inr
        by (intro exI [of _ "Some err"] exI [of _ "estimated (w_service wk)"] exI [of _ 1])
          (simp add: commitFunc_def)
    next
      case (Inr ret)
      then show ?thesis
        using False d \<open>PerformRequest (s_c (w_service wk)) w (bulk_request (w_service wk)) = Inr res\<close>
        by (intro exI [of _ "None"] exI [of _ "Reset (w_service wk)"] exI [of _ 1])
          (simp add: commitFunc_def)
    qed
  qed
qed

lemma RetryNotify_commitFunc:
  assumes ex: "b (Suc m) = None"
  shows "n \<le> m \<Longrightarrow> service_ok (w_service wk) \<Longrightarrow>
    \<exists>err s' k. RetryNotify commitFunc b notifyFunc n (wk, w) =
        Some (Inr (err, wk\<lparr>w_service := s'\<rparr>,
                   w @ replicate k (Performed (bulk_request (w_service wk))))) \<and>
      (err = None \<longrightarrow> s' = Reset (w_service wk)) \<and>
      (err \<noteq> None \<longrightarrow> s' = w_service wk \<or> s' = estimated (w_service wk)) \<and>
      (s_rows (w_service wk) = [] \<longrightarrow> k = 0 \<and> err \<noteq> None) \<and>
      (s_rows (w_service wk) \<noteq> [] \<longrightarrow> 1 \<le> k)"
proof (induction "m - n" arbitrary: n wk w)
  case 0
  then have nm: "n = m" by simp
  from commitFunc_ok [OF "0.prems"(2), of w] obtain r s1 k1 where
    c: "commitFunc (wk, w) = Inr (r, wk\<lparr>w_service := s1\<rparr>,
          w @ replicate k1 (Performed (bulk_request (w_service wk))))"
    and rn: "r = None \<longrightarrow> s1 = Reset (w_service wk) \<and> k1 = 1 \<and> s_rows (w_service wk) \<noteq> []"
    and rs: "r \<noteq> None \<longrightarrow> (s1 = w_service wk \<and> k1 = 0 \<and> s_rows (w_service wk) = []) \<or>
              (s1 = estimated (w_service wk) \<and> k1 = 1 \<and> s_rows (w_service wk) \<noteq> [])"
    by blast
  have "RetryNotify commitFunc b notifyFunc n (wk, w) =
      Some (Inr (r, wk\<lparr>w_service := s1\<rparr>,
                 w @ replicate k1 (Performed (bulk_request (w_service wk)))))"
    by (subst RetryNotify.simps) (simp add: c ex nm notifyFunc_def split: option.splits)
  then show ?case
    using rn rs by (intro exI [of _ r] exI [of _ s1] exI [of _ k1]) auto
next
  case (Suc d)
  from commitFunc_ok [OF Suc.prems(2), of w] obtain r s1 k1 where
    c: "commitFunc (wk, w) = Inr (r, wk\<lparr>w_service := s1\<rparr>,
          w @ replicate k1 (Performed (bulk_request (w_service wk))))"
    and rn: "r = None \<longrightarrow> s1 = Reset (w_service wk) \<and> k1 = 1 \<and> s_rows (w_service wk) \<noteq> []"
    and rs: "r \<noteq> None \<longrightarrow> (s1 = w_service wk \<and> k1 = 0 \<and> s_rows (w_service wk) = []) \<or>
              (s1 = estimated (w_service wk) \<and> k1 = 1 \<and> s_rows (w_service wk) \<noteq> [])"
    by blast
  show ?case
  proof (cases "r = None \<or> b (Suc n) = None")
    case True
    have "RetryNotify commitFunc b notifyFunc n (wk, w) =
        Some (Inr (r, wk\<lparr>w_service := s1\<rparr>,
                   w @ replicate k1 (Performed (bulk_request (w_service wk)))))"
      using True by (subst RetryNotify.simps) (auto simp: c notifyFunc_def split: option.splits)
    then show ?thesis
      using rn rs by (intro exI [of _ r] exI [of _ s1] exI [of _ k1]) auto
  next
    case False
    then obtain e wait where r: "r = Some e" and bw: "b (Suc n) = Some wait"
      by auto
    let ?wk1 = "wk\<lparr>w_service := s1\<rparr>"
    let ?w1 = "w @ replicate k1 (Performed (bulk_request (w_service wk)))"
    have unfold: "RetryNotify commitFunc b notifyFunc n (wk, w) =
        RetryNotify commitFunc b notifyFunc (Suc n) (?wk1, ?w1)"
      by (subst RetryNotify.simps) (simp add: c r bw notifyFunc_def)
    from rs r have s1: "s1 = w_service wk \<or> s1 = estimated (w_service wk)"
      by auto
    then have ok1: "service_ok (w_service ?wk1)"
      using Suc.prems(2) by (auto intro: service_ok_estimated)
    have d: "d = m - Suc n" using Suc.hyps(2) by simp
    have le: "Suc n \<le> m" using Suc.hyps(2) by simp
    from Suc.hyps(1) [OF d le ok1, of ?w1] obtain err s' k2 where
      res: "RetryNotify commitFunc b notifyFunc (Suc n) (?wk1, ?w1) =
          Some (Inr (err, ?wk1\<lparr>w_service := s'\<rparr>,
                     ?w1 @ replicate k2 (Performed (bulk_request (w_service ?wk1)))))"
      and en: "err = None \<longrightarrow> s' = Reset (w_service ?wk1)"
      and es: "err \<noteq> None \<longrightarrow> s' = w_service ?wk1 \<or> s' = estimated (w_service ?wk1)"
      and k0: "s_rows (w_service ?wk1) = [] \<longrightarrow> k2 = 0 \<and> err \<noteq> None"
      and k1: "s_rows (w_service ?wk1) \<noteq> [] \<longrightarrow> 1 \<le> k2"
      by blast
    have req: "bulk_request s1 = bulk_request (w_service wk)"
      using s1 by (auto simp: bulk_request_estimated)
    have rows1: "s_rows s1 = s_rows (w_service wk)"
      using s1 by (auto simp: s_rows_estimated)
    have "RetryNotify commitFunc b notifyFunc n (wk, w) =
        Some (Inr (err, wk\<lparr>w_service := s'\<rparr>,
                   w @ replicate (k1 + k2) (Performed (bulk_request (w_service wk)))))"
      by (simp add: unfold res req replicate_add)
    moreover have "err = None \<longrightarrow> s' = Reset (w_service wk)"
      using en s1 by (auto simp: Reset_estimated)
    moreover have "err \<noteq> None \<longrightarrow> s' = w_service wk \<or> s' = estimated (w_service wk)"
      using es s1 by (auto simp: estimated_idem)
    moreover have "s_rows (w_service wk) = [] \<longrightarrow> k1 + k2 = 0 \<and> err \<noteq> None"
      using k0 rs r rows1 by auto
    moreover have "s_rows (w_service wk) \<noteq> [] \<longrightarrow> 1 \<le> k1 + k2"
      using k1 rows1 by auto
    ultimately show ?thesis
      by blast
  qed
qed

lemma stranded_ok: "service_ok (w_service stranded)"
  by (simp add: stranded_def service_ok_def Add_def Table_def DB_def NewBulkService_def
      Header_def total_bytes_def estimateSizeInBytes_def)

text \<open>
  C1 as the specification states it (the batch is empty after every commit attempt, also a
  failed one) does not hold: the worker \<open>stranded\<close> holds the row \<open>a\<close>, its store
  refuses the request and the schedule grants no retry; \<open>Do\<close> and \<open>commit\<close> return the
  error and the row is still in the batch.
\<close>

theorem commit_failed_keeps_rows:
  "Do (w_service stranded) [] =
     Inr (Inl (collaborator_error ''connection refused''), estimated (w_service stranded),
          [Performed (bulk_request (w_service stranded))]) \<and>
   commit stranded [] =
     Some (Inr (Some (collaborator_error ''connection refused''),
                stranded\<lparr>w_service := estimated (w_service stranded)\<rparr>,
                [Performed (bulk_request (w_service stranded))])) \<and>
   s_rows (estimated (w_service stranded)) = [''a'']"
proof -
  have rows: "s_rows (w_service stranded) = [''a'']"
    by (simp add: stranded_def Add_def Table_def DB_def NewBulkService_def Header_def)
  have c: "s_c (w_service stranded) = unreachable"
    by (simp add: stranded_def Add_def Table_def DB_def NewBulkService_def Header_def)
  have b: "w_p_backoff stranded = no_retry"
    by (simp add: stranded_def newBulkWorker_def NewBulkProcessor_def)
  have d: "Do (w_service stranded) [] =
      Inr (Inl (collaborator_error ''connection refused''), estimated (w_service stranded),
           [Performed (bulk_request (w_service stranded))])"
    using Do_ok [OF stranded_ok, of "[]"] by (simp add: rows c) (simp add: unreachable_def)
  have "commit stranded [] =
     Some (Inr (Some (collaborator_error ''connection refused''),
                stranded\<lparr>w_service := estimated (w_service stranded)\<rparr>,
                [Performed (bulk_request (w_service stranded))]))"
    unfolding commit_def
    by (subst RetryNotify.simps) (simp add: commitFunc_def d b no_retry_def notifyFunc_def)
  with d show ?thesis
    by (simp add: rows s_rows_estimated)
qed

text \<open>
  C1, amended. One attempt, a call of \<open>Do\<close>, leaves the batch empty (rows, size
  estimate and cursor cleared by \<open>Reset\<close>) when it returns a response, and leaves the rows
  as they were when it returns an error. Whenever the schedule ends, \<open>commit\<close> returns; if
  it returns no error the batch is empty, and if it returns an error, also after all retries,
  the rows of the batch are the ones it held before.
\<close>

theorem commit_clears_on_success_only:
  assumes "service_ok (w_service wk)" and "w_p_backoff wk (Suc m) = None"
  shows "(\<exists>r s' w'. Do (w_service wk) w = Inr (r, s', w') \<and>
            (case r of
               Inr res \<Rightarrow> s_rows s' = [] \<and> s_sizeInBytes s' = 0 \<and> s_sizeInBytesCursor s' = 0
             | Inl err \<Rightarrow> s_rows s' = s_rows (w_service wk))) \<and>
         (\<exists>err wk' w'. commit wk w = Some (Inr (err, wk', w')) \<and>
            (err = None \<longrightarrow> s_rows (w_service wk') = [] \<and> s_sizeInBytes (w_service wk') = 0 \<and>
                            s_sizeInBytesCursor (w_service wk') = 0) \<and>
            (err \<noteq> None \<longrightarrow> s_rows (w_service wk') = s_rows (w_service wk)))"
proof -
  have once: "\<exists>r s' w'. Do (w_service wk) w = Inr (r, s', w') \<and>
            (case r of
               Inr res \<Rightarrow> s_rows s' = [] \<and> s_sizeInBytes s' = 0 \<and> s_sizeInBytesCursor s' = 0
             | Inl err \<Rightarrow> s_rows s' = s_rows (w_service wk))"
  proof (cases "s_rows (w_service wk) = []")
    case True
    then show ?thesis
      by (simp add: Do_def NumberOfRows_def)
  next
    case False
    show ?thesis
      by (simp add: Do_ok [OF assms(1) False] Reset_def s_rows_estimated split: sum.splits)
  qed
  have "0 \<le> m" by simp
  from RetryNotify_commitFunc [where b = "w_p_backoff wk" and m = m and n = 0 and wk = wk and w = w,
      OF assms(2) this assms(1)]
  obtain err s' k where
    r: "RetryNotify commitFunc (w_p_backoff wk) notifyFunc 0 (wk, w) =
        Some (Inr (err, wk\<lparr>w_service := s'\<rparr>,
                   w @ replicate k (Performed (bulk_request (w_service wk)))))"
    and n: "err = None \<longrightarrow> s' = Reset (w_service wk)"
    and s: "err \<noteq> None \<longrightarrow> s' = w_service wk \<or> s' = estimated (w_service wk)"
    by blast
  have "err = None \<longrightarrow> s_rows s' = [] \<and> s_sizeInBytes s' = 0 \<and> s_sizeInBytesCursor s' = 0"
    using n by (simp add: Reset_def)
  moreover have "err \<noteq> None \<longrightarrow> s_rows s' = s_rows (w_service wk)"
    using s by (auto simp: s_rows_estimated)
  ultimately have "\<exists>err wk' w'. commit wk w = Some (Inr (err, wk', w')) \<and>
            (err = None \<longrightarrow> s_rows (w_service wk') = [] \<and> s_sizeInBytes (w_service wk') = 0 \<and>
                            s_sizeInBytesCursor (w_service wk') = 0) \<and>
            (err \<noteq> None \<longrightarrow> s_rows (w_service wk') = s_rows (w_service wk))"
    using r by (simp add: commit_def)
  with once show ?thesis
    by blast
qed

theorem commit_clears_on_success_only_witness:
  "service_ok (w_service stranded) \<and> w_p_backoff stranded (Suc 0) = None \<and>
   (\<exists>r s' w'. Do (w_service stranded) [] = Inr (r, s', w') \<and>
      (case r of
         Inr res \<Rightarrow> s_rows s' = [] \<and> s_sizeInBytes s' = 0 \<and> s_sizeInBytesCursor s' = 0
       | Inl err \<Rightarrow> s_rows s' = [''a''])) \<and>
   (\<exists>err wk' w'. commit stranded [] = Some (Inr (err, wk', w')) \<and>
      (err = None \<longrightarrow> s_rows (w_service wk') = [] \<and> s_sizeInBytes (w_service wk') = 0 \<and>
                      s_sizeInBytesCursor (w_service wk') = 0) \<and>
      (err \<noteq> None \<longrightarrow> s_rows (w_service wk') = [''a'']))"
proof -
  have b: "w_p_backoff stranded (Suc 0) = None"
    by (simp add: stranded_def newBulkWorker_def NewBulkProcessor_def no_retry_def)
  have rows: "s_rows (w_service stranded) = [''a'']"
    by (simp add: stranded_def Add_def Table_def DB_def NewBulkService_def Header_def)
  show ?thesis
    using stranded_ok b commit_clears_on_success_only [OF stranded_ok b, of "[]"]
    by (simp only: rows)
qed

text \<open>
  C3. \<open>commitRequired\<close> answers true exactly when the count threshold is enabled (not
  negative) and reached by the number of rows, or the size threshold is enabled (not
  negative) and reached by the bytes of the batch. With both thresholds negative the
  answer is false and the worker is untouched.
\<close>

theorem commitRequired_iff:
  assumes "service_ok (w_service wk)"
  shows "\<exists>wk'. commitRequired wk =
            Inr ((0 \<le> w_bulkActions wk \<and> w_bulkActions wk \<le> int (length (s_rows (w_service wk)))) \<or>
                 (0 \<le> w_bulkSize wk \<and>
                  w_bulkSize wk \<le> (\<Sum>r\<leftarrow>s_rows (w_service wk). int (length r))), wk') \<and>
          (w_bulkActions wk < 0 \<and> w_bulkSize wk < 0 \<longrightarrow> commitRequired wk = Inr (False, wk))"
  using EstimatedSizeInBytes_ok [OF assms]
  by (auto simp: commitRequired_def NumberOfRows_def total_bytes_sum)

theorem commitRequired_iff_witness:
  "service_ok (w_service (stranded\<lparr>w_bulkSize := 1\<rparr>)) \<and>
   (\<exists>wk'. commitRequired (stranded\<lparr>w_bulkSize := 1\<rparr>) = Inr (True, wk')) \<and>
   commitRequired (stranded\<lparr>w_bulkActions := - 1\<rparr>) = Inr (False, stranded\<lparr>w_bulkActions := - 1\<rparr>)"
proof -
  have h1: "service_ok (w_service (stranded\<lparr>w_bulkSize := 1\<rparr>))"
    using stranded_ok by simp
  have h2: "service_ok (w_service (stranded\<lparr>w_bulkActions := - 1\<rparr>))"
    using stranded_ok by simp
  have rows: "s_rows (w_service stranded) = [''a'']"
    by (simp add: stranded_def Add_def Table_def DB_def NewBulkService_def Header_def)
  have cfg: "w_bulkActions stranded = 10" "w_bulkSize stranded = - 1"
    by (simp_all add: stranded_def newBulkWorker_def NewBulkProcessor_def)
  show ?thesis
    using h1 commitRequired_iff [OF h1] commitRequired_iff [OF h2]
    by (simp add: rows cfg)
qed

text \<open>
  C9. A worker whose \<open>bulkActions\<close> is 0 gets the answer true from \<open>commitRequired\<close>
  in every state of its batch, and the service is not even asked for its size: 0 is not
  negative, so it does not switch the count threshold off.
\<close>

theorem commitRequired_bulkActions_zero:
  assumes "w_bulkActions wk = 0"
  shows "commitRequired wk = Inr (True, wk)"
  using assms by (simp add: commitRequired_def NumberOfRows_def)

theorem commitRequired_bulkActions_zero_witness:
  "w_bulkActions (stranded\<lparr>w_bulkActions := 0\<rparr>) = 0 \<and>
   commitRequired (stranded\<lparr>w_bulkActions := 0\<rparr>) = Inr (True, stranded\<lparr>w_bulkActions := 0\<rparr>)"
proof -
  have h: "w_bulkActions (stranded\<lparr>w_bulkActions := 0\<rparr>) = 0"
    by simp
  show ?thesis
    using h commitRequired_bulkActions_zero [OF h] by simp
qed

section \<open>Starting the pool\<close>

lemma Start_loop_eq:
  "Start_loop p i =
     p\<lparr>p_workerWg := p_workerWg p + max 0 (p_numWorkers p - i),
       p_workers := p_workers p @ map (newBulkWorker p) [i..p_numWorkers p - 1]\<rparr>"
proof (induction p i rule: Start_loop.induct)
  case (1 p i)
  show ?case
  proof (cases "i < p_numWorkers p")
    case True
    have u: "[i..p_numWorkers p - 1] = i # [i + 1..p_numWorkers p - 1]"
      using True by (simp add: upto_rec1)
    show ?thesis
      using True "1.IH" [OF True]
      by (subst Start_loop.simps) (simp add: u newBulkWorker_def)
  next
    case False
    then show ?thesis
      by (subst Start_loop.simps) simp
  qed
qed

lemma Start_ok:
  assumes "checkInterval p = None" and "\<not> p_started p"
  shows "Start p =
           (None,
            p\<lparr>p_numWorkers := max 1 (p_numWorkers p),
              p_rows := chan_open, p_executionId := 0, p_stopReconnC := chan_open,
              p_workerWg := p_workerWg p + max 1 (p_numWorkers p),
              p_workers := map (newBulkWorker p) [0..max 1 (p_numWorkers p) - 1],
              p_flusherStopC := (if 0 < p_flushInterval p then chan_open else p_flusherStopC p),
              p_started := True\<rparr>)"
proof (cases "p_numWorkers p < 1")
  case True
  then have m: "max 1 (p_numWorkers p) = 1" by simp
  show ?thesis
    using assms True
    by (simp add: Start_def Start_loop_eq Let_def newBulkWorker_def m)
next
  case False
  then have m: "max 1 (p_numWorkers p) = p_numWorkers p" by simp
  show ?thesis
    using assms False
    by (simp add: Start_def Start_loop_eq Let_def newBulkWorker_def m)
qed

text \<open>
  C7. \<open>Start\<close> returns the configuration error exactly when \<open>bulkActions\<close>,
  \<open>bulkSize\<close> and \<open>flushInterval\<close> are all 0, and then changes nothing. Otherwise it
  returns nil: on a processor already started it changes nothing; on a stopped one it
  opens the intake channel, creates the workers \<open>0 .. n - 1\<close> (\<open>n\<close> the number of
  workers, at least 1), starts the flusher when the interval is positive and sets
  \<open>started\<close>.
\<close>

theorem Start_outcomes:
  "(fst (Start p) \<noteq> None) =
      (p_bulkActions p = 0 \<and> p_bulkSize p = 0 \<and> p_flushInterval p = 0) \<and>
   (if p_bulkActions p = 0 \<and> p_bulkSize p = 0 \<and> p_flushInterval p = 0
    then Start p =
           (Some (errors_New ''bulk actions and bulk size and flush interval all is nil(0)''), p)
    else if p_started p then Start p = (None, p)
    else Start p =
           (None,
            p\<lparr>p_numWorkers := max 1 (p_numWorkers p),
              p_rows := chan_open, p_executionId := 0, p_stopReconnC := chan_open,
              p_workerWg := p_workerWg p + max 1 (p_numWorkers p),
              p_workers := map (newBulkWorker p) [0..max 1 (p_numWorkers p) - 1],
              p_flusherStopC := (if 0 < p_flushInterval p then chan_open else p_flusherStopC p),
              p_started := True\<rparr>))"
proof (cases "p_bulkActions p = 0 \<and> p_bulkSize p = 0 \<and> p_flushInterval p = 0")
  case True
  then show ?thesis
    by (simp add: Start_def checkInterval_def)
next
  case False
  then have c: "checkInterval p = None"
    by (auto simp: checkInterval_def)
  show ?thesis
  proof (cases "p_started p")
    case True
    with False c show ?thesis
      by (simp add: Start_def)
  next
    case nst: False
    have "fst (Start p) = None"
      by (simp add: Start_ok [OF c nst])
    with False nst Start_ok [OF c nst] show ?thesis
      by simp
  qed
qed

theorem Start_outcomes_witness:
  "fst (Start (pool\<lparr>p_bulkActions := 0, p_bulkSize := 0\<rparr>)) \<noteq> None \<and>
   Start pool =
     (None, pool\<lparr>p_rows := chan_open, p_stopReconnC := chan_open, p_workerWg := 2,
                  p_workers := [newBulkWorker pool 0, newBulkWorker pool 1],
                  p_started := True\<rparr>) \<and>
   Start (snd (Start pool)) = (None, snd (Start pool))"
proof -
  have cfg: "p_bulkActions pool = 3" "p_bulkSize pool = - 1" "p_flushInterval pool = 0"
    "p_numWorkers pool = 2" "\<not> p_started pool" "p_workerWg pool = 0" "p_executionId pool = 0"
    by (simp_all add: pool_def NewBulkProcessor_def)
  have u: "[0..1::int] = [0, 1]"
    by (simp add: upto_rec1)
  have a: "fst (Start (pool\<lparr>p_bulkActions := 0, p_bulkSize := 0\<rparr>)) \<noteq> None"
    using Start_outcomes [of "pool\<lparr>p_bulkActions := 0, p_bulkSize := 0\<rparr>"] by (simp add: cfg)
  have b: "Start pool =
     (None, pool\<lparr>p_rows := chan_open, p_stopReconnC := chan_open, p_workerWg := 2,
                  p_workers := [newBulkWorker pool 0, newBulkWorker pool 1],
                  p_started := True\<rparr>)"
    using Start_outcomes [of pool] by (simp add: cfg u)
  have c: "Start (snd (Start pool)) = (None, snd (Start pool))"
    using Start_outcomes [of "snd (Start pool)"] by (simp add: b cfg)
  from a b c show ?thesis by simp
qed

section \<open>Threshold commits of one worker\<close>

lemma full_batches_short: "length rs < k \<Longrightarrow> full_batches k rs = []"
  by (simp add: full_batches_def)

lemma residue_short: "length rs < k \<Longrightarrow> residue k rs = rs"
  by (simp add: residue_def)

lemma full_batches_Cons:
  assumes "0 < k" and "length b = k"
  shows "full_batches k (b @ rs) = b # full_batches k rs"
proof -
  have d: "length (b @ rs) div k = Suc (length rs div k)"
    using assms by (simp add: div_add_self1)
  have u: "[0..<Suc (length rs div k)] = 0 # map Suc [0..<length rs div k]"
    by (simp add: upt_conv_Cons map_Suc_upt del: upt_Suc)
  show ?thesis
    unfolding full_batches_def d u using assms
    by (simp add: comp_def)
qed

lemma residue_Cons:
  assumes "0 < k" and "length b = k"
  shows "residue k (b @ rs) = residue k rs"
proof -
  have d: "length (b @ rs) div k = Suc (length rs div k)"
    using assms by (simp add: div_add_self1)
  show ?thesis
    unfolding residue_def d using assms by simp
qed

lemma length_full_batches: "length (full_batches k rs) = length rs div k"
  by (simp add: full_batches_def)

lemma full_batches_length: "0 < k \<Longrightarrow> b \<in> set (full_batches k rs) \<Longrightarrow> length b = k"
proof -
  assume k: "0 < k" and "b \<in> set (full_batches k rs)"
  then obtain j where j: "j < length rs div k" and b: "b = take k (drop (j * k) rs)"
    by (auto simp: full_batches_def)
  from j have "Suc j \<le> length rs div k" by simp
  then have "Suc j * k \<le> (length rs div k) * k" by (rule mult_le_mono1)
  also have "\<dots> \<le> length rs" by simp
  finally have "j * k + k \<le> length rs" by simp
  then show "length b = k" by (simp add: b)
qed

lemma concat_full_batches: "concat (full_batches k rs) @ residue k rs = rs"
proof (cases "k = 0")
  case True
  then show ?thesis by (simp add: full_batches_def residue_def)
next
  case False
  then have k: "0 < k" by simp
  show ?thesis
  proof (induction "length rs" arbitrary: rs rule: less_induct)
    case less
    show ?case
    proof (cases "length rs < k")
      case True
      then show ?thesis by (simp add: full_batches_short residue_short)
    next
      case False
      let ?b = "take k rs" and ?t = "drop k rs"
      have lb: "length ?b = k" using False by simp
      have lt: "length ?t < length rs" using False k by simp
      have f: "full_batches k rs = ?b # full_batches k ?t"
        using full_batches_Cons [OF k lb, of ?t] by simp
      have r: "residue k rs = residue k ?t"
        using residue_Cons [OF k lb, of ?t] by simp
      have "?b @ concat (full_batches k ?t) @ residue k ?t = rs"
        using less [OF lt] by simp
      then show ?thesis
        by (simp add: f r)
    qed
  qed
qed

lemma total_bytes_Nil: "total_bytes [] = 0"
  by (simp add: total_bytes_def)

lemma bulk_request_batch: "bulk_request s = batch_request s (s_rows s)"
  by (simp add: bulk_request_def batch_request_def)

lemma batch_request_holding:
  "batch_request (s\<lparr>s_rows := b, s_sizeInBytes := a, s_sizeInBytesCursor := n\<rparr>) =
   batch_request s"
  by (rule ext) (simp add: batch_request_def buildUrlPath_def)

lemma commit_accepted:
  assumes "service_ok (w_service wk)" and "s_rows (w_service wk) \<noteq> []"
    and "PerformRequest (s_c (w_service wk)) w (bulk_request (w_service wk)) = Inr res"
    and "decoder (s_c (w_service wk)) (res_Body res) = Inr ret"
  shows "commit wk w =
           Some (Inr (None, wk\<lparr>w_service := Reset (w_service wk)\<rparr>,
                      w @ [Performed (bulk_request (w_service wk))]))"
  unfolding commit_def
  by (subst RetryNotify.simps)
    (simp add: commitFunc_def Do_ok [OF assms(1,2)] assms(3,4))

lemma work_loop_rows:
  assumes k: "0 < k"
    and acc: "\<And>w opt. \<exists>res ret. PerformRequest c w opt = Inr res \<and> decoder c (res_Body res) = Inr ret"
  shows "w_bulkActions wk = int k \<Longrightarrow> w_bulkSize wk < 0 \<Longrightarrow> service_ok (w_service wk) \<Longrightarrow>
    s_c (w_service wk) = c \<Longrightarrow> length (s_rows (w_service wk)) < k \<Longrightarrow>
    total_bytes (s_rows (w_service wk) @ rs) < 2 ^ 63 \<Longrightarrow>
    \<exists>a n. service_ok ((w_service wk)\<lparr>s_rows := residue k (s_rows (w_service wk) @ rs),
                                       s_sizeInBytes := a, s_sizeInBytesCursor := n\<rparr>) \<and>
      (\<forall>evs. work_loop wk w (map Row rs @ evs) =
         work_loop
           (wk\<lparr>w_service := (w_service wk)\<lparr>s_rows := residue k (s_rows (w_service wk) @ rs),
                                             s_sizeInBytes := a, s_sizeInBytesCursor := n\<rparr>\<rparr>)
           (w @ map (\<lambda>b. Performed (batch_request (w_service wk) b))
                  (full_batches k (s_rows (w_service wk) @ rs)))
           evs)"
proof (induction rs arbitrary: wk w)
  case Nil
  have "(w_service wk)\<lparr>s_rows := s_rows (w_service wk),
          s_sizeInBytes := s_sizeInBytes (w_service wk),
          s_sizeInBytesCursor := s_sizeInBytesCursor (w_service wk)\<rparr> = w_service wk"
    by simp
  note same = this
  show ?case
    by (rule exI [of _ "s_sizeInBytes (w_service wk)"],
        rule exI [of _ "s_sizeInBytesCursor (w_service wk)"])
      (use Nil same in \<open>simp add: residue_short full_batches_short\<close>)
next
  case (Cons r rs)
  let ?s = "w_service wk"
  let ?pre = "s_rows ?s"
  let ?wk1 = "wk\<lparr>w_service := Add ?s [r]\<rparr>"
  have tb: "total_bytes (?pre @ [r]) < 2 ^ 63"
    using Cons.prems(6) total_bytes_nonneg [of rs]
    by (simp add: total_bytes_append total_bytes_Cons total_bytes_Nil)
  have ok1: "service_ok (Add ?s [r])"
    using Cons.prems(3) tb by (rule service_ok_Add)
  have rows1: "s_rows (Add ?s [r]) = ?pre @ [r]"
    by (simp add: Add_def)
  show ?case
  proof (cases "Suc (length ?pre) = k")
    case True
    have req: "commitRequired ?wk1 = Inr (True, ?wk1)"
      using True Cons.prems(1) by (simp add: commitRequired_def NumberOfRows_def Add_def)
    from acc [of w "bulk_request (Add ?s [r])"] obtain res ret where
      pr: "PerformRequest c w (bulk_request (Add ?s [r])) = Inr res"
      and de: "decoder c (res_Body res) = Inr ret"
      by blast
    have c1: "s_c (Add ?s [r]) = c"
      using Cons.prems(4) by (simp add: Add_def)
    let ?wk2 = "wk\<lparr>w_service := Reset (Add ?s [r])\<rparr>"
    let ?w2 = "w @ [Performed (bulk_request (Add ?s [r]))]"
    have com: "commit ?wk1 w = Some (Inr (None, ?wk2, ?w2))"
      using commit_accepted [of ?wk1 w res ret] ok1 pr de c1 by (simp add: rows1)
    have step: "\<And>evs. work_loop wk w (Row r # map Row rs @ evs) = work_loop ?wk2 ?w2 (map Row rs @ evs)"
      by (simp add: req com and_then_def then_return_def)
    have rs2: "Reset (Add ?s [r]) = ?s\<lparr>s_rows := [], s_sizeInBytes := 0, s_sizeInBytesCursor := 0\<rparr>"
      by (simp add: Reset_def Add_def)
    have tb2: "total_bytes (s_rows (w_service ?wk2) @ rs) < 2 ^ 63"
      using Cons.prems(6) total_bytes_nonneg [of "?pre @ [r]"]
      by (simp add: rs2 total_bytes_append total_bytes_Cons total_bytes_Nil)
    from Cons.IH [of ?wk2 ?w2] Cons.prems k tb2 obtain a n where
      ok: "service_ok ((w_service ?wk2)\<lparr>s_rows := residue k (s_rows (w_service ?wk2) @ rs),
              s_sizeInBytes := a, s_sizeInBytesCursor := n\<rparr>)"
      and run: "\<And>evs. work_loop ?wk2 ?w2 (map Row rs @ evs) =
         work_loop
           (?wk2\<lparr>w_service := (w_service ?wk2)\<lparr>s_rows := residue k (s_rows (w_service ?wk2) @ rs),
                                             s_sizeInBytes := a, s_sizeInBytesCursor := n\<rparr>\<rparr>)
           (?w2 @ map (\<lambda>b. Performed (batch_request (w_service ?wk2) b))
                  (full_batches k (s_rows (w_service ?wk2) @ rs)))
           evs"
      by (auto simp: rs2 service_ok_Reset [of "Add ?s [r]", unfolded rs2])
    have lb: "length (?pre @ [r]) = k"
      using True by simp
    have fb: "full_batches k (?pre @ r # rs) = (?pre @ [r]) # full_batches k rs"
      using full_batches_Cons [OF k lb, of rs] by simp
    have re: "residue k (?pre @ r # rs) = residue k rs"
      using residue_Cons [OF k lb, of rs] by simp
    have br: "batch_request (Reset (Add ?s [r])) = batch_request ?s"
      unfolding rs2 by (rule batch_request_holding)
    have b1: "bulk_request (Add ?s [r]) = batch_request ?s (?pre @ [r])"
      by (simp add: bulk_request_def batch_request_def Add_def buildUrlPath_def)
    show ?thesis
      by (rule exI [of _ a], rule exI [of _ n])
        (use ok run in \<open>simp add: step fb re rs2 br [unfolded rs2] b1 del: work_loop.simps\<close>)
  next
    case False
    with Cons.prems(5) have lt: "Suc (length ?pre) < k"
      by simp
    have req: "commitRequired ?wk1 = Inr (False, ?wk1)"
      using lt Cons.prems(1,2) by (simp add: commitRequired_def NumberOfRows_def Add_def)
    have step: "\<And>evs. work_loop wk w (Row r # map Row rs @ evs) = work_loop ?wk1 w (map Row rs @ evs)"
      by (simp add: req and_then_def)
    have a1: "Add ?s [r] = ?s\<lparr>s_rows := ?pre @ [r]\<rparr>"
      by (simp add: Add_def)
    have tb1: "total_bytes (s_rows (w_service ?wk1) @ rs) < 2 ^ 63"
      using Cons.prems(6) by (simp add: rows1)
    have l1: "length (s_rows (w_service ?wk1)) < k"
      using lt by (simp add: rows1)
    have c1: "s_c (w_service ?wk1) = c"
      using Cons.prems(4) by (simp add: Add_def)
    from Cons.IH [of ?wk1 w] Cons.prems(1,2) ok1 c1 l1 tb1 obtain a n where
      ok: "service_ok ((w_service ?wk1)\<lparr>s_rows := residue k (s_rows (w_service ?wk1) @ rs),
              s_sizeInBytes := a, s_sizeInBytesCursor := n\<rparr>)"
      and run: "\<And>evs. work_loop ?wk1 w (map Row rs @ evs) =
         work_loop
           (?wk1\<lparr>w_service := (w_service ?wk1)\<lparr>s_rows := residue k (s_rows (w_service ?wk1) @ rs),
                                             s_sizeInBytes := a, s_sizeInBytesCursor := n\<rparr>\<rparr>)
           (w @ map (\<lambda>b. Performed (batch_request (w_service ?wk1) b))
                  (full_batches k (s_rows (w_service ?wk1) @ rs)))
           evs"
      by auto
    have br: "batch_request (Add ?s [r]) = batch_request ?s"
      by (rule ext) (simp add: batch_request_def Add_def buildUrlPath_def)
    show ?thesis
      by (rule exI [of _ a], rule exI [of _ n])
        (use ok run in \<open>simp add: step rows1 br [unfolded a1] a1 del: work_loop.simps\<close>)
  qed
qed

lemma length_residue_mod: "length (residue k rs) = length rs mod k"
proof -
  have "length (residue k rs) = length rs - k * (length rs div k)"
    by (simp add: residue_def)
  also have "\<dots> = length rs mod k"
    by (simp add: minus_mult_div_eq_mod)
  finally show ?thesis .
qed

lemma div_full_last: "0 < k \<Longrightarrow> (q * k + k - 1) div k = (q::nat)"
proof -
  assume "0 < k"
  then obtain j where j: "k = Suc j" by (cases k) auto
  have "q * k + k - 1 = q * k + j" by (simp add: j)
  then have "(q * k + k - 1) div k = (q * k + j) div k" by (rule arg_cong)
  also have "\<dots> = q + j div k" by (rule div_mult_self3) (simp add: j)
  also have "\<dots> = q" by (simp add: j)
  finally show ?thesis .
qed

lemma div_partial_last: "0 < m \<Longrightarrow> m < k \<Longrightarrow> (q * k + m + k - 1) div k = Suc (q::nat)"
proof -
  assume m: "0 < m" "m < k"
  then obtain j where j: "m = Suc j" by (cases m) auto
  have "q * k + m + k - 1 = Suc q * k + j" by (simp add: j)
  then have "(q * k + m + k - 1) div k = (Suc q * k + j) div k" by (rule arg_cong)
  also have "\<dots> = Suc q + j div k" by (rule div_mult_self3) (use m in simp)
  also have "\<dots> = Suc q" using m by (simp add: j)
  finally show ?thesis .
qed

lemma ceiling_batches:
  assumes "0 < k"
  shows "length (full_batches k rs @ (if residue k rs = [] then [] else [residue k rs])) =
         (length rs + k - 1) div k"
proof -
  let ?n = "length rs"
  have n: "?n = (?n div k) * k + ?n mod k" by simp
  show ?thesis
  proof (cases "?n mod k = 0")
    case True
    then have r: "residue k rs = []"
      using length_residue_mod [of k rs] by simp
    from n True have "?n = (?n div k) * k" by simp
    then have "(?n + k - 1) div k = ((?n div k) * k + k - 1) div k" by simp
    also have "\<dots> = ?n div k" using assms by (rule div_full_last)
    finally show ?thesis
      by (simp add: r length_full_batches)
  next
    case False
    then have r: "residue k rs \<noteq> []"
      using length_residue_mod [of k rs] by auto
    have m: "0 < ?n mod k" "?n mod k < k" using False assms by simp_all
    have "(?n + k - 1) div k = ((?n div k) * k + ?n mod k + k - 1) div k" by simp
    also have "\<dots> = Suc (?n div k)" using m by (rule div_partial_last)
    finally show ?thesis
      by (simp add: r length_full_batches)
  qed
qed

text \<open>
  C4, amended. A worker with count threshold \<open>k\<close> (at least 1), no size threshold and an
  empty batch receives the records \<open>rs\<close> and nothing else, and every attempt is accepted.
  Then it has made exactly \<open>length rs div k\<close> requests, one per full batch, each with
  exactly \<open>k\<close> records in the order received, and the last \<open>length rs mod k\<close> records are
  still in its batch. When the intake channel is then closed the residue, if there is one, is
  committed too: that makes \<open>(length rs + k - 1) div k\<close> requests in all (the count rounded
  up), each of at most \<open>k\<close> records, and the worker ends with an empty batch.
\<close>

theorem work_threshold_commits:
  assumes "0 < k" and "w_bulkActions wk = int k" and "w_bulkSize wk < 0"
    and "service_ok (w_service wk)" and "s_rows (w_service wk) = []"
    and "total_bytes rs < 2 ^ 63"
    and "\<forall>w opt. \<exists>res ret. PerformRequest (s_c (w_service wk)) w opt = Inr res \<and>
                              decoder (s_c (w_service wk)) (res_Body res) = Inr ret"
  shows "\<exists>wk1 wk2.
     work wk w (map Row rs) =
       Some (Inr (wk1, w @ map (\<lambda>b. Performed (batch_request (w_service wk) b))
                             (full_batches k rs))) \<and>
     s_rows (w_service wk1) = residue k rs \<and> w_closed wk1 = w_closed wk \<and>
     work wk w (map Row rs @ [RowsClosed]) =
       Some (Inr (wk2, w @ map (\<lambda>b. Performed (batch_request (w_service wk) b))
                             (full_batches k rs @
                              (if residue k rs = [] then [] else [residue k rs])))) \<and>
     s_rows (w_service wk2) = [] \<and> w_closed wk2 \<and>
     length (full_batches k rs) = length rs div k \<and>
     (\<forall>b \<in> set (full_batches k rs). length b = k) \<and>
     length (residue k rs) = length rs mod k \<and>
     concat (full_batches k rs) @ residue k rs = rs \<and>
     length (full_batches k rs @ (if residue k rs = [] then [] else [residue k rs])) =
       (length rs + k - 1) div k"
proof -
  let ?s = "w_service wk"
  let ?log = "w @ map (\<lambda>b. Performed (batch_request ?s b)) (full_batches k rs)"
  have acc: "\<And>w opt. \<exists>res ret. PerformRequest (s_c ?s) w opt = Inr res \<and>
                                decoder (s_c ?s) (res_Body res) = Inr ret"
    using assms(7) by blast
  have len0: "length (s_rows ?s) < k" and tb: "total_bytes (s_rows ?s @ rs) < 2 ^ 63"
    using assms(1,5,6) by simp_all
  from work_loop_rows [OF assms(1) acc assms(2,3,4) refl len0 tb, of w] obtain a n where
    ok: "service_ok (?s\<lparr>s_rows := residue k rs, s_sizeInBytes := a, s_sizeInBytesCursor := n\<rparr>)"
    and run: "\<And>evs. work_loop wk w (map Row rs @ evs) =
       work_loop (wk\<lparr>w_service := ?s\<lparr>s_rows := residue k rs, s_sizeInBytes := a,
                                       s_sizeInBytesCursor := n\<rparr>\<rparr>) ?log evs"
    by (auto simp: assms(5))
  let ?s1 = "?s\<lparr>s_rows := residue k rs, s_sizeInBytes := a, s_sizeInBytesCursor := n\<rparr>"
  let ?wk1 = "wk\<lparr>w_service := ?s1\<rparr>"
  have first: "work wk w (map Row rs) = Some (Inr (?wk1, ?log))"
    using run [of "[]"] by (simp add: work_def then_return_def and_then_def)
  have "\<exists>wk2. work wk w (map Row rs @ [RowsClosed]) =
       Some (Inr (wk2, w @ map (\<lambda>b. Performed (batch_request ?s b))
                             (full_batches k rs @
                              (if residue k rs = [] then [] else [residue k rs])))) \<and>
       s_rows (w_service wk2) = [] \<and> w_closed wk2"
  proof (cases "residue k rs = []")
    case True
    then have "work_select ?wk1 ?log RowsClosed = Some (Inr (True, None, ?wk1, ?log))"
      by (simp add: NumberOfRows_def)
    then have "work wk w (map Row rs @ [RowsClosed]) =
        Some (Inr (?wk1\<lparr>w_closed := True\<rparr>, ?log))"
      by (simp add: run work_def then_return_def and_then_def del: work_select.simps)
    then show ?thesis
      using True by simp
  next
    case False
    from acc [of ?log "bulk_request ?s1"] obtain res ret where
      pr: "PerformRequest (s_c ?s1) ?log (bulk_request ?s1) = Inr res"
      and de: "decoder (s_c ?s1) (res_Body res) = Inr ret"
      by auto
    have ne: "s_rows (w_service ?wk1) \<noteq> []"
      using False by simp
    have com: "commit ?wk1 ?log =
        Some (Inr (None, ?wk1\<lparr>w_service := Reset ?s1\<rparr>, ?log @ [Performed (bulk_request ?s1)]))"
      using commit_accepted [of ?wk1 ?log res ret] ok ne pr de by simp
    have br: "bulk_request ?s1 = batch_request ?s (residue k rs)"
      by (simp add: bulk_request_batch batch_request_holding)
    have "work_select ?wk1 ?log RowsClosed =
        Some (Inr (True, None, ?wk1\<lparr>w_service := Reset ?s1\<rparr>, ?log @ [Performed (bulk_request ?s1)]))"
      using False by (simp add: NumberOfRows_def com then_return_def and_then_def)
    then have "work wk w (map Row rs @ [RowsClosed]) =
        Some (Inr (?wk1\<lparr>w_service := Reset ?s1, w_closed := True\<rparr>,
                   ?log @ [Performed (bulk_request ?s1)]))"
      by (simp add: run work_def then_return_def and_then_def del: work_select.simps)
    then show ?thesis
      using False by (simp add: br Reset_def)
  qed
  then obtain wk2 where second:
      "work wk w (map Row rs @ [RowsClosed]) =
       Some (Inr (wk2, w @ map (\<lambda>b. Performed (batch_request ?s b))
                             (full_batches k rs @
                              (if residue k rs = [] then [] else [residue k rs]))))"
      "s_rows (w_service wk2) = []" "w_closed wk2"
    by blast
  have fl: "\<forall>b \<in> set (full_batches k rs). length b = k"
    using full_batches_length [OF assms(1)] by blast
  show ?thesis
    apply (rule exI [of _ ?wk1], rule exI [of _ wk2])
    apply (intro conjI)
              apply (rule first)
             apply simp
            apply simp
           apply (rule second(1))
          apply (rule second(2))
         apply (rule second(3))
        apply (rule length_full_batches)
       apply (rule fl)
      apply (rule length_residue_mod)
     apply (rule concat_full_batches)
    apply (rule ceiling_batches [OF assms(1)])
    done
qed

lemma pool_worker:
  "w_bulkActions (newBulkWorker pool i) = 3" "w_bulkSize (newBulkWorker pool i) = - 1"
  "s_rows (w_service (newBulkWorker pool i)) = []"
  "s_c (w_service (newBulkWorker pool i)) = accepting"
  "service_ok (w_service (newBulkWorker pool i))"
  "\<not> w_closed (newBulkWorker pool i)"
  "w_i (newBulkWorker pool i) = i"
  by (simp_all add: newBulkWorker_def pool_def NewBulkProcessor_def Table_def DB_def
      NewBulkService_def Header_def service_ok_def total_bytes_def)

text \<open>
  C4 as the specification states it (the count of threshold commits is the quotient rounded
  up) does not hold: a worker with threshold 3 that received one record has made no request
  at all, where the quotient rounded up is 1.
\<close>

theorem work_threshold_not_ceiling:
  "w_bulkActions (newBulkWorker pool 0) = 3 \<and> w_bulkSize (newBulkWorker pool 0) = - 1 \<and>
   work (newBulkWorker pool 0) [] (map Row [''a'']) =
     Some (Inr ((newBulkWorker pool 0)
                  \<lparr>w_service := Add (w_service (newBulkWorker pool 0)) [''a'']\<rparr>, [])) \<and>
   length (performed []) \<noteq> (length [''a''] + 3 - 1) div 3"
  by (simp add: pool_worker work_def then_return_def and_then_def commitRequired_def
      NumberOfRows_def Add_def)

theorem work_threshold_commits_witness:
  "(0::nat) < 3 \<and> w_bulkActions (newBulkWorker pool 0) = int 3 \<and>
   w_bulkSize (newBulkWorker pool 0) < 0 \<and> service_ok (w_service (newBulkWorker pool 0)) \<and>
   s_rows (w_service (newBulkWorker pool 0)) = [] \<and>
   total_bytes [''a'', ''b'', ''c'', ''d''] < 2 ^ 63 \<and>
   (\<exists>wk1 wk2.
      work (newBulkWorker pool 0) [] (map Row [''a'', ''b'', ''c'', ''d'']) =
        Some (Inr (wk1, [Performed (batch_request (w_service (newBulkWorker pool 0))
                                       [''a'', ''b'', ''c''])])) \<and>
      s_rows (w_service wk1) = [''d''] \<and>
      work (newBulkWorker pool 0) [] (map Row [''a'', ''b'', ''c'', ''d''] @ [RowsClosed]) =
        Some (Inr (wk2, [Performed (batch_request (w_service (newBulkWorker pool 0))
                                       [''a'', ''b'', ''c'']),
                         Performed (batch_request (w_service (newBulkWorker pool 0)) [''d''])])) \<and>
      s_rows (w_service wk2) = [] \<and> w_closed wk2)"
proof -
  let ?wk = "newBulkWorker pool 0"
  let ?rs = "[''a'', ''b'', ''c'', ''d'']"
  have h1: "(0::nat) < 3" by simp
  have h2: "w_bulkActions ?wk = int 3" by (simp add: pool_worker)
  have h3: "w_bulkSize ?wk < 0" by (simp add: pool_worker)
  have h4: "service_ok (w_service ?wk)" by (rule pool_worker)
  have h5: "s_rows (w_service ?wk) = []" by (rule pool_worker)
  have h6: "total_bytes ?rs < 2 ^ 63" by (simp add: total_bytes_def estimateSizeInBytes_def)
  have h7: "\<forall>w opt. \<exists>res ret. PerformRequest (s_c (w_service ?wk)) w opt = Inr res \<and>
                              decoder (s_c (w_service ?wk)) (res_Body res) = Inr ret"
    by (simp add: pool_worker accepting_def)
  have fb: "full_batches 3 ?rs = [[''a'', ''b'', ''c'']]"
    by (simp add: full_batches_def)
  have re: "residue 3 ?rs = [''d'']"
    by (simp add: residue_def)
  from work_threshold_commits [OF h1 h2 h3 h4 h5 h6 h7, of "[]"]
  show ?thesis
    using h2 h3 h4 h5 h6 by (simp add: fb re) blast
qed

section \<open>Flush\<close>

lemma work_select_FlushC:
  assumes "flushable wk"
  shows "\<exists>err s' k. work_select wk w FlushC =
            Some (Inr (False, err, wk\<lparr>w_service := s'\<rparr>,
                       w @ replicate k (Performed (bulk_request (w_service wk))) @
                       [FlushAck (w_i wk)])) \<and>
          (k = 0) = (s_rows (w_service wk) = []) \<and>
          (s_rows (w_service wk) = [] \<longrightarrow> err = None \<and> s' = w_service wk) \<and>
          (err = None \<longrightarrow> s_rows s' = []) \<and>
          (err \<noteq> None \<longrightarrow> s_rows s' = s_rows (w_service wk)) \<and>
          flushable (wk\<lparr>w_service := s'\<rparr>)"
proof (cases "s_rows (w_service wk) = []")
  case True
  have sel: "work_select wk w FlushC = Some (Inr (False, None, wk, w @ [FlushAck (w_i wk)]))"
    using True by (simp add: NumberOfRows_def)
  show ?thesis
    by (rule exI [of _ None], rule exI [of _ "w_service wk"], rule exI [of _ 0])
      (use sel True assms in simp)
next
  case False
  from assms obtain m where ok: "service_ok (w_service wk)" and ex: "w_p_backoff wk (Suc m) = None"
    and op: "\<not> w_closed wk"
    by (auto simp: flushable_def)
  have "0 \<le> m" by simp
  from RetryNotify_commitFunc [where b = "w_p_backoff wk" and m = m and n = 0 and wk = wk and w = w,
      OF ex this ok]
  obtain err s' k where
    r: "commit wk w = Some (Inr (err, wk\<lparr>w_service := s'\<rparr>,
                   w @ replicate k (Performed (bulk_request (w_service wk)))))"
    and n: "err = None \<longrightarrow> s' = Reset (w_service wk)"
    and s: "err \<noteq> None \<longrightarrow> s' = w_service wk \<or> s' = estimated (w_service wk)"
    and k: "s_rows (w_service wk) \<noteq> [] \<longrightarrow> 1 \<le> k"
    unfolding commit_def by blast
  have ok': "service_ok s'"
    using n s ok by (cases err) (auto intro: service_ok_Reset service_ok_estimated)
  have rows_n: "err = None \<longrightarrow> s_rows s' = []"
    using n by (simp add: Reset_def)
  have rows_s: "err \<noteq> None \<longrightarrow> s_rows s' = s_rows (w_service wk)"
    using s by (auto simp: s_rows_estimated)
  have sel: "work_select wk w FlushC =
      Some (Inr (False, err, wk\<lparr>w_service := s'\<rparr>,
                 w @ replicate k (Performed (bulk_request (w_service wk))) @ [FlushAck (w_i wk)]))"
    using False by (simp add: NumberOfRows_def r then_return_def and_then_def)
  show ?thesis
    by (rule exI [of _ err], rule exI [of _ s'], rule exI [of _ k])
      (use sel False k ok' ex op rows_n rows_s in \<open>auto simp: flushable_def\<close>)
qed

lemma Flush_loop_ok:
  "\<forall>wk \<in> set wks. flushable wk \<Longrightarrow>
   \<exists>wks' ks. Flush_loop wks w = Some (Inr (wks', w @ concat (map2 flush_round wks ks))) \<and>
     list_all2 (\<lambda>wk k. (k = 0) = (s_rows (w_service wk) = [])) wks ks \<and>
     list_all2 (\<lambda>wk wk'. \<exists>s'. wk' = wk\<lparr>w_service := s'\<rparr> \<and> flushable wk') wks wks'"
proof (induction wks arbitrary: w)
  case Nil
  then show ?case by simp
next
  case (Cons wk wks)
  then have f: "flushable wk" and fs: "\<forall>wk \<in> set wks. flushable wk"
    by simp_all
  from work_select_FlushC [OF f, of "w @ [FlushSignal (w_i wk)]"] obtain err s' k where
    sel: "work_select wk (w @ [FlushSignal (w_i wk)]) FlushC =
            Some (Inr (False, err, wk\<lparr>w_service := s'\<rparr>,
                       (w @ [FlushSignal (w_i wk)]) @
                       replicate k (Performed (bulk_request (w_service wk))) @
                       [FlushAck (w_i wk)]))"
    and k: "(k = 0) = (s_rows (w_service wk) = [])"
    and f': "flushable (wk\<lparr>w_service := s'\<rparr>)"
    by blast
  let ?w1 = "w @ flush_round wk k"
  have w1: "(w @ [FlushSignal (w_i wk)]) @ replicate k (Performed (bulk_request (w_service wk))) @
            [FlushAck (w_i wk)] = ?w1"
    by (simp add: flush_round_def)
  from Cons.IH [OF fs, of ?w1] obtain wks' ks where
    loop: "Flush_loop wks ?w1 = Some (Inr (wks', ?w1 @ concat (map2 flush_round wks ks)))"
    and ks: "list_all2 (\<lambda>wk k. (k = 0) = (s_rows (w_service wk) = [])) wks ks"
    and ws: "list_all2 (\<lambda>wk wk'. \<exists>s'. wk' = wk\<lparr>w_service := s'\<rparr> \<and> flushable wk') wks wks'"
    by blast
  have op: "\<not> w_closed wk"
    using f by (simp add: flushable_def)
  have all: "Flush_loop (wk # wks) w =
      Some (Inr (wk\<lparr>w_service := s'\<rparr> # wks', w @ concat (map2 flush_round (wk # wks) (k # ks))))"
    using op by (simp add: sel [unfolded w1] loop and_then_def then_return_def
        del: work_select.simps)
  show ?case
    by (rule exI [of _ "wk\<lparr>w_service := s'\<rparr> # wks'"], rule exI [of _ "k # ks"])
      (use all k ks ws f' in auto)
qed

lemma handshakes_append: "handshakes (u @ v) = handshakes u @ handshakes v"
  by (induction u rule: handshakes.induct) simp_all

lemma handshakes_replicate: "handshakes (replicate k (Performed opt)) = []"
  by (induction k) simp_all

lemma handshakes_flush_round:
  "handshakes (flush_round wk k) = [FlushSignal (w_i wk), FlushAck (w_i wk)]"
  by (simp add: flush_round_def handshakes_append handshakes_replicate)

lemma handshakes_rounds:
  "length ks = length wks \<Longrightarrow>
   handshakes (concat (map2 flush_round wks ks)) =
     concat (map (\<lambda>wk. [FlushSignal (w_i wk), FlushAck (w_i wk)]) wks)"
proof (induction wks arbitrary: ks)
  case Nil
  then show ?case by simp
next
  case (Cons wk wks)
  then obtain k ks' where "ks = k # ks'" "length ks' = length wks"
    by (cases ks) auto
  with Cons.IH [of ks'] show ?case
    by (simp add: handshakes_append handshakes_flush_round)
qed

text \<open>
  C5. \<open>Flush\<close> over workers that can take the request returns, and what it added to the
  log is, worker after worker in the order of the pool, one round each: the flush signal to
  the worker, the requests of that worker's commit, and the worker's acknowledgement, which
  comes before the signal to the next worker; the last event is the acknowledgement of the
  last worker. A worker makes no request exactly when its batch is empty, and nothing is
  assumed about the outcome of its commit: the acknowledgement follows in every case. The
  same holds for the flush case of each worker taken alone, from any log \<open>w0\<close>: whatever
  \<open>err\<close> its commit leaves, the acknowledgement is the last thing the worker does.
\<close>

theorem Flush_handshake:
  assumes "\<forall>wk \<in> set (p_workers p). flushable wk"
  shows "(\<exists>p' ks. Flush p w =
            Some (Inr (None, p', w @ concat (map2 flush_round (p_workers p) ks))) \<and>
          list_all2 (\<lambda>wk k. (k = 0) = (s_rows (w_service wk) = [])) (p_workers p) ks) \<and>
         (\<forall>wk \<in> set (p_workers p).
            \<exists>err wk' k. work_select wk w0 FlushC =
               Some (Inr (False, err, wk',
                          w0 @ replicate k (Performed (bulk_request (w_service wk))) @
                          [FlushAck (w_i wk)])) \<and>
             (k = 0) = (s_rows (w_service wk) = []))"
proof -
  from Flush_loop_ok [OF assms, of w] obtain wks' ks where
    loop: "Flush_loop (p_workers p) w =
             Some (Inr (wks', w @ concat (map2 flush_round (p_workers p) ks)))"
    and ks: "list_all2 (\<lambda>wk k. (k = 0) = (s_rows (w_service wk) = [])) (p_workers p) ks"
    by blast
  have "Flush p w =
      Some (Inr (None, p\<lparr>p_workers := wks'\<rparr>, w @ concat (map2 flush_round (p_workers p) ks)))"
    by (simp add: Flush_def loop then_return_def and_then_def)
  with ks have whole: "\<exists>p' ks. Flush p w =
            Some (Inr (None, p', w @ concat (map2 flush_round (p_workers p) ks))) \<and>
          list_all2 (\<lambda>wk k. (k = 0) = (s_rows (w_service wk) = [])) (p_workers p) ks"
    by blast
  have each: "\<exists>err wk' k. work_select wk w0 FlushC =
               Some (Inr (False, err, wk',
                          w0 @ replicate k (Performed (bulk_request (w_service wk))) @
                          [FlushAck (w_i wk)])) \<and>
             (k = 0) = (s_rows (w_service wk) = [])"
    if "wk \<in> set (p_workers p)" for wk
  proof -
    from that assms have "flushable wk" by blast
    from work_select_FlushC [OF this, of w0] show ?thesis by blast
  qed
  from whole each show ?thesis
    by blast
qed

text \<open>
  C2, amended. \<open>Flush\<close> over workers that can take the request returns nil, whatever the
  commits of the workers returned, and every worker of the pool has been sent the flush
  signal and has acknowledged it, in the order of the pool.
\<close>

theorem Flush_returns_nil:
  assumes "\<forall>wk \<in> set (p_workers p). flushable wk"
  shows "\<exists>p' w'. Flush p w = Some (Inr (None, p', w')) \<and>
          handshakes w' =
            handshakes w @
            concat (map (\<lambda>wk. [FlushSignal (w_i wk), FlushAck (w_i wk)]) (p_workers p))"
proof -
  from Flush_loop_ok [OF assms, of w] obtain wks' ks where
    loop: "Flush_loop (p_workers p) w =
             Some (Inr (wks', w @ concat (map2 flush_round (p_workers p) ks)))"
    and ks: "list_all2 (\<lambda>wk k. (k = 0) = (s_rows (w_service wk) = [])) (p_workers p) ks"
    by blast
  have len: "length ks = length (p_workers p)"
    using ks by (simp add: list_all2_lengthD)
  have f: "Flush p w =
      Some (Inr (None, p\<lparr>p_workers := wks'\<rparr>, w @ concat (map2 flush_round (p_workers p) ks)))"
    by (simp add: Flush_def loop then_return_def and_then_def)
  show ?thesis
    by (rule exI [of _ "p\<lparr>p_workers := wks'\<rparr>"],
        rule exI [of _ "w @ concat (map2 flush_round (p_workers p) ks)"])
      (simp add: f handshakes_append handshakes_rounds [OF len])
qed

lemma stranded_flushable: "flushable stranded"
proof -
  have "w_p_backoff stranded (Suc 0) = None" "\<not> w_closed stranded"
    by (simp_all add: stranded_def newBulkWorker_def NewBulkProcessor_def no_retry_def)
  with stranded_ok show ?thesis
    unfolding flushable_def by blast
qed

lemma stranded_fields:
  "s_rows (w_service stranded) = [''a'']" "s_c (w_service stranded) = unreachable"
  "w_p_backoff stranded = no_retry" "w_i stranded = 0" "\<not> w_closed stranded"
  by (simp_all add: stranded_def Add_def Table_def DB_def NewBulkService_def Header_def
      newBulkWorker_def NewBulkProcessor_def)

lemma stranded_commit:
  "commit stranded w =
     Some (Inr (Some (collaborator_error ''connection refused''),
                stranded\<lparr>w_service := estimated (w_service stranded)\<rparr>,
                w @ [Performed (bulk_request (w_service stranded))]))"
proof -
  have d: "Do (w_service stranded) w =
      Inr (Inl (collaborator_error ''connection refused''), estimated (w_service stranded),
           w @ [Performed (bulk_request (w_service stranded))])"
    using Do_ok [OF stranded_ok, of w] by (simp add: stranded_fields) (simp add: unreachable_def)
  show ?thesis
    unfolding commit_def
    by (subst RetryNotify.simps)
      (simp add: commitFunc_def d stranded_fields no_retry_def notifyFunc_def)
qed

text \<open>
  C2 as the specification states it (\<open>Flush\<close> returns the first commit failure of a
  worker) does not hold: in the processor \<open>outage\<close> the flush case of the only worker ends
  with the error of its commit in \<open>err\<close>, and \<open>Flush\<close> returns nil.
\<close>

theorem Flush_drops_commit_failure:
  "work_select stranded [FlushSignal 0] FlushC =
     Some (Inr (False, Some (collaborator_error ''connection refused''),
                stranded\<lparr>w_service := estimated (w_service stranded)\<rparr>,
                [FlushSignal 0, Performed (bulk_request (w_service stranded)), FlushAck 0])) \<and>
   Flush outage [] =
     Some (Inr (None,
                outage\<lparr>p_workers := [stranded\<lparr>w_service := estimated (w_service stranded)\<rparr>]\<rparr>,
                [FlushSignal 0, Performed (bulk_request (w_service stranded)), FlushAck 0]))"
proof -
  have sel: "work_select stranded [FlushSignal 0] FlushC =
     Some (Inr (False, Some (collaborator_error ''connection refused''),
                stranded\<lparr>w_service := estimated (w_service stranded)\<rparr>,
                [FlushSignal 0, Performed (bulk_request (w_service stranded)), FlushAck 0]))"
    by (simp add: NumberOfRows_def stranded_fields stranded_commit then_return_def and_then_def)
  have "Flush outage [] =
     Some (Inr (None,
                outage\<lparr>p_workers := [stranded\<lparr>w_service := estimated (w_service stranded)\<rparr>]\<rparr>,
                [FlushSignal 0, Performed (bulk_request (w_service stranded)), FlushAck 0]))"
    by (simp add: Flush_def outage_def stranded_fields sel then_return_def and_then_def
        del: work_select.simps)
  with sel show ?thesis by simp
qed

theorem Flush_returns_nil_witness:
  "p_workers outage = [stranded] \<and> flushable stranded \<and>
   (\<exists>p' w'. Flush outage [] = Some (Inr (None, p', w')) \<and>
             handshakes w' = [FlushSignal 0, FlushAck 0])"
proof -
  have h: "\<forall>wk \<in> set (p_workers outage). flushable wk"
    by (simp add: outage_def stranded_flushable)
  have w: "p_workers outage = [stranded]"
    by (simp add: outage_def)
  show ?thesis
    using stranded_flushable Flush_returns_nil [OF h, of "[]"] by (simp add: w stranded_fields)
qed

lemma newBulkWorker_fresh:
  "s_rows (w_service (newBulkWorker p i)) = []" "service_ok (w_service (newBulkWorker p i))"
  "s_c (w_service (newBulkWorker p i)) = p_c p" "w_p_backoff (newBulkWorker p i) = p_backoff p"
  "\<not> w_closed (newBulkWorker p i)" "w_i (newBulkWorker p i) = i"
  by (simp_all add: newBulkWorker_def Table_def DB_def NewBulkService_def Header_def
      service_ok_def total_bytes_def)

lemma cut_off_fields: "p_c cut_off = unreachable" "p_backoff cut_off = no_retry"
  by (simp_all add: cut_off_def NewBulkProcessor_def)

theorem Flush_handshake_witness:
  "p_workers flushing =
     [newBulkWorker cut_off 0,
      (newBulkWorker cut_off 1)\<lparr>w_service := Add (w_service (newBulkWorker cut_off 1)) [''a'']\<rparr>] \<and>
   flushable (newBulkWorker cut_off 0) \<and>
   flushable ((newBulkWorker cut_off 1)
                \<lparr>w_service := Add (w_service (newBulkWorker cut_off 1)) [''a'']\<rparr>) \<and>
   Do (Add (w_service (newBulkWorker cut_off 1)) [''a''])
      [FlushSignal 0, FlushAck 0, FlushSignal 1] =
     Inr (Inl (collaborator_error ''connection refused''),
          estimated (Add (w_service (newBulkWorker cut_off 1)) [''a'']),
          [FlushSignal 0, FlushAck 0, FlushSignal 1,
           Performed (batch_request (w_service (newBulkWorker cut_off 1)) [''a''])]) \<and>
   (\<exists>p' k. 0 < k \<and>
      Flush flushing [] =
        Some (Inr (None, p',
                   [FlushSignal 0, FlushAck 0, FlushSignal 1] @
                   replicate k (Performed (batch_request (w_service (newBulkWorker cut_off 1)) [''a''])) @
                   [FlushAck 1])))"
proof -
  let ?s1 = "Add (w_service (newBulkWorker cut_off 1)) [''a'']"
  let ?w1 = "(newBulkWorker cut_off 1)\<lparr>w_service := ?s1\<rparr>"
  have w: "p_workers flushing = [newBulkWorker cut_off 0, ?w1]"
    by (simp add: flushing_def)
  have ok1: "service_ok ?s1"
    using service_ok_Add [OF newBulkWorker_fresh(2) [of cut_off 1], of "[''a'']"]
    by (simp add: newBulkWorker_fresh total_bytes_def estimateSizeInBytes_def)
  have f0: "flushable (newBulkWorker cut_off 0)"
    unfolding flushable_def using newBulkWorker_fresh(2,5) [of cut_off 0]
    by (simp add: newBulkWorker_fresh cut_off_fields no_retry_def)
  have f1: "flushable ?w1"
    unfolding flushable_def using ok1 newBulkWorker_fresh(5) [of cut_off 1]
    by (simp add: newBulkWorker_fresh cut_off_fields no_retry_def)
  have h: "\<forall>wk \<in> set (p_workers flushing). flushable wk"
    by (simp add: w f0 f1)
  have r1: "s_rows ?s1 = [''a'']"
    by (simp add: Add_def newBulkWorker_fresh)
  have c1: "s_c ?s1 = unreachable"
    by (simp add: Add_def newBulkWorker_fresh cut_off_fields)
  have b1: "bulk_request ?s1 = batch_request (w_service (newBulkWorker cut_off 1)) [''a'']"
    by (simp add: bulk_request_def batch_request_def Add_def buildUrlPath_def newBulkWorker_fresh)
  have d: "Do ?s1 [FlushSignal 0, FlushAck 0, FlushSignal 1] =
     Inr (Inl (collaborator_error ''connection refused''), estimated ?s1,
          [FlushSignal 0, FlushAck 0, FlushSignal 1,
           Performed (batch_request (w_service (newBulkWorker cut_off 1)) [''a''])])"
    using Do_ok [OF ok1, of "[FlushSignal 0, FlushAck 0, FlushSignal 1]"]
    by (simp add: r1 c1 unreachable_def b1 [symmetric])
  from Flush_handshake [OF h, of "[]"] obtain p' ks where
    fl: "Flush flushing [] =
          Some (Inr (None, p', [] @ concat (map2 flush_round (p_workers flushing) ks)))"
    and ks: "list_all2 (\<lambda>wk k. (k = 0) = (s_rows (w_service wk) = [])) (p_workers flushing) ks"
    by blast
  from ks [unfolded w] obtain k0 k where ks2: "ks = [k0, k]"
    and k0: "(k0 = 0) = (s_rows (w_service (newBulkWorker cut_off 0)) = [])"
    and k1: "(k = 0) = (s_rows (w_service ?w1) = [])"
    unfolding list_all2_Cons1 by auto
  from k0 have "k0 = 0" by (simp add: newBulkWorker_fresh)
  moreover from k1 have "0 < k" by (simp add: r1)
  ultimately have k: "ks = [0, k]" "0 < k"
    using ks2 by simp_all
  have "Flush flushing [] =
        Some (Inr (None, p',
                   [FlushSignal 0, FlushAck 0, FlushSignal 1] @
                   replicate k (Performed (batch_request (w_service (newBulkWorker cut_off 1)) [''a''])) @
                   [FlushAck 1]))"
    using fl by (simp add: w k flush_round_def newBulkWorker_fresh r1 b1)
  with w f0 f1 d k(2) show ?thesis
    by blast
qed

end
